theory Spec2Isabelle
  imports Main
begin

section \<open>The data model of \<^verbatim>\<open>include/Matrix/matrix.h\<close>\<close>

text \<open>
  \<^verbatim>\<open>linalg::Matrix<T>\<close> has one private member, \<^verbatim>\<open>std::vector<std::vector<T>> m_matrix\<close>.
  A \<^verbatim>\<open>std::vector\<close> is a list. The element type \<^verbatim>\<open>T\<close> is a type variable; the operations
  the code applies to it (\<^verbatim>\<open>0\<close>, \<^verbatim>\<open>+\<close>, \<^verbatim>\<open>*\<close>) are the ones of the type classes named in
  each definition.

  The code leaves the process in two ways other than by returning: \<^verbatim>\<open>std::abort()\<close> after a
  diagnostic (in the nested constructor and in \<^verbatim>\<open>operator*\<close>; the \<^verbatim>\<open>assert\<close> of the
  original multiplication likewise), and \<^verbatim>\<open>operator[]\<close> past the end of a vector, which
  C++ leaves undefined. Both are values of \<open>error\<close>, so that every function of the model is
  total and each failure is a branch of it.

  The loop counters of the source are \<^verbatim>\<open>int\<close>, compared with \<^verbatim>\<open>size_t\<close> bounds; the model
  counts in \<open>nat\<close>, which agrees with the source for vectors of fewer than \<open>2^31\<close> elements.
\<close>

datatype error =
    OutOfRange               \<comment> \<open>\<^verbatim>\<open>operator[]\<close> with an index that is not below \<^verbatim>\<open>size()\<close>\<close>
  | RaggedShapeAbort         \<comment> \<open>\<^verbatim>\<open>std::abort()\<close> in the nested constructor\<close>
  | DimensionMismatchAbort   \<comment> \<open>\<^verbatim>\<open>std::abort()\<close> in \<^verbatim>\<open>operator*\<close>\<close>
  | AssertionFailed          \<comment> \<open>a failed \<^verbatim>\<open>assert\<close>\<close>

record 'a Matrix =
  m_matrix :: "'a list list"

text \<open>\<^verbatim>\<open>v[i]\<close> on a \<^verbatim>\<open>std::vector\<close>.\<close>

definition at_vec :: "'a list \<Rightarrow> nat \<Rightarrow> error + 'a" where
  "at_vec v i = (if i < length v then Inr (v ! i) else Inl OutOfRange)"

text \<open>Reading \<^verbatim>\<open>m[i][j]\<close> and writing \<^verbatim>\<open>m[i][j] = x\<close> on a vector of vectors.\<close>

definition at2 :: "'a list list \<Rightarrow> nat \<Rightarrow> nat \<Rightarrow> error + 'a" where
  "at2 m i j = (case at_vec m i of Inl e \<Rightarrow> Inl e | Inr row \<Rightarrow> at_vec row j)"

definition set2 :: "'a list list \<Rightarrow> nat \<Rightarrow> nat \<Rightarrow> 'a \<Rightarrow> error + 'a list list" where
  "set2 m i j x =
     (case at_vec m i of
        Inl e \<Rightarrow> Inl e
      | Inr row \<Rightarrow> if j < length row then Inr (m[i := row[j := x]]) else Inl OutOfRange)"

subsection \<open>Shapes\<close>

text \<open>
  A grid has shape \<open>(r, c)\<close> when it has \<open>r\<close> rows and each of them has \<open>c\<close> elements. The
  invariant of the data model is a shape with at least one row and one column.
\<close>

definition shape :: "'a Matrix \<Rightarrow> nat \<Rightarrow> nat \<Rightarrow> bool" where
  "shape m r c \<longleftrightarrow> length (m_matrix m) = r \<and> list_all (\<lambda>row. length row = c) (m_matrix m)"

definition rectangular :: "'a Matrix \<Rightarrow> bool" where
  "rectangular m \<longleftrightarrow>
     list_all (\<lambda>row. list_all (\<lambda>row'. length row = length row') (m_matrix m)) (m_matrix m)"

definition min_shape :: "'a Matrix \<Rightarrow> bool" where
  "min_shape m \<longleftrightarrow>
     (case m_matrix m of
        [] \<Rightarrow> False
      | row0 # _ \<Rightarrow> 1 \<le> length row0 \<and> shape m (length (m_matrix m)) (length row0))"

section \<open>Construction\<close>

text \<open>\<^verbatim>\<open>Matrix(const T mat) : m_matrix{1, std::vector<T>(1, mat)}\<close>\<close>

definition Matrix_of_scalar :: "'a \<Rightarrow> 'a Matrix" where
  "Matrix_of_scalar mat = \<lparr>m_matrix = replicate 1 (replicate 1 mat)\<rparr>"

text \<open>\<^verbatim>\<open>Matrix(const std::vector<T>& mat) : m_matrix{1, mat}\<close>: one copy of \<^verbatim>\<open>mat\<close>.\<close>

definition Matrix_of_vector :: "'a list \<Rightarrow> 'a Matrix" where
  "Matrix_of_vector mat = \<lparr>m_matrix = replicate 1 mat\<rparr>"

text \<open>
  \<^verbatim>\<open>Matrix(const std::vector<std::vector<T>>& mat) : m_matrix{mat}\<close>, followed by the loop
  \<^verbatim>\<open>for (int row=1; row<m_matrix.size(); row++)\<close> that aborts at the first pair of adjacent
  rows of different sizes.
\<close>

function Matrix_of_nested_loop :: "nat \<Rightarrow> 'a list list \<Rightarrow> error + unit" where
  "Matrix_of_nested_loop row m =
     (if row < length m then
        (case at_vec m (row - 1) of
           Inl e \<Rightarrow> Inl e
         | Inr prev \<Rightarrow>
             (case at_vec m row of
                Inl e \<Rightarrow> Inl e
              | Inr cur \<Rightarrow>
                  if length prev \<noteq> length cur then Inl RaggedShapeAbort
                  else Matrix_of_nested_loop (row + 1) m))
      else Inr ())"
  by pat_completeness auto
termination
  by (relation "measure (\<lambda>(row, m). length m - row)") auto

declare Matrix_of_nested_loop.simps [simp del]

definition Matrix_of_nested :: "'a list list \<Rightarrow> error + 'a Matrix" where
  "Matrix_of_nested mat =
     (case Matrix_of_nested_loop 1 mat of
        Inl e \<Rightarrow> Inl e
      | Inr _ \<Rightarrow> Inr \<lparr>m_matrix = mat\<rparr>)"

text \<open>
  \<^verbatim>\<open>Matrix(const size_t& row, const size_t& col, T value=0)
      : m_matrix{row, std::vector<T>(col, value)}\<close>
\<close>

definition Matrix_of_dims :: "nat \<Rightarrow> nat \<Rightarrow> 'a \<Rightarrow> 'a Matrix" where
  "Matrix_of_dims row col val = \<lparr>m_matrix = replicate row (replicate col val)\<rparr>"

section \<open>\<^verbatim>\<open>size()\<close>\<close>

text \<open>\<^verbatim>\<open>std::make_pair(this->m_matrix.size(), this->m_matrix[0].size())\<close>\<close>

definition Matrix_size :: "'a Matrix \<Rightarrow> error + (nat \<times> nat)" where
  "Matrix_size this =
     (case at_vec (m_matrix this) 0 of
        Inl e \<Rightarrow> Inl e
      | Inr row0 \<Rightarrow> Inr (length (m_matrix this), length row0))"

section \<open>\<^verbatim>\<open>operator*\<close>\<close>

text \<open>
  The three loops of \<^verbatim>\<open>operator*\<close>, innermost first. The state of each is \<^verbatim>\<open>res.m_matrix\<close>;
  the bounds \<^verbatim>\<open>res.m_matrix.size()\<close>, \<^verbatim>\<open>mat1.m_matrix[0].size()\<close> and
  \<^verbatim>\<open>res.m_matrix[i].size()\<close> are read again at every iteration, as in the source.
\<close>

function operator_mul_loop_j ::
  "'a::{plus,times} Matrix \<Rightarrow> 'a Matrix \<Rightarrow> nat \<Rightarrow> nat \<Rightarrow> nat \<Rightarrow> 'a list list \<Rightarrow> error + 'a list list"
where
  "operator_mul_loop_j mat1 mat2 i k j res =
     (case at_vec res i of
        Inl e \<Rightarrow> Inl e
      | Inr res_i \<Rightarrow>
          if j < length res_i then
            (case at2 res i j of
               Inl e \<Rightarrow> Inl e
             | Inr r \<Rightarrow>
                 (case at2 (m_matrix mat1) i k of
                    Inl e \<Rightarrow> Inl e
                  | Inr a \<Rightarrow>
                      (case at2 (m_matrix mat2) k j of
                         Inl e \<Rightarrow> Inl e
                       | Inr b \<Rightarrow>
                           (case set2 res i j (r + a * b) of
                              Inl e \<Rightarrow> Inl e
                            | Inr res' \<Rightarrow> operator_mul_loop_j mat1 mat2 i k (j + 1) res'))))
          else Inr res)"
  by pat_completeness auto
termination
  by (relation "measure (\<lambda>(mat1, mat2, i, k, j, res). length (res ! i) - j)")
     (auto simp: at_vec_def set2_def split: if_splits)

declare operator_mul_loop_j.simps [simp del]

lemma operator_mul_loop_j_length:
  "operator_mul_loop_j mat1 mat2 i k j res = Inr res' \<Longrightarrow> length res' = length res"
proof (induction mat1 mat2 i k j res rule: operator_mul_loop_j.induct)
  case (1 mat1 mat2 i k j res)
  show ?case
  proof (cases "i < length res \<and> j < length (res ! i)")
    case False
    with "1.prems" show ?thesis
      by (subst (asm) operator_mul_loop_j.simps) (auto simp: at_vec_def split: if_splits)
  next
    case True
    with "1.prems" obtain r a b res1 where
      s: "at2 res i j = Inr r" "at2 (m_matrix mat1) i k = Inr a" "at2 (m_matrix mat2) k j = Inr b"
         "set2 res i j (r + a * b) = Inr res1"
         "operator_mul_loop_j mat1 mat2 i k (j + 1) res1 = Inr res'"
      by (subst (asm) operator_mul_loop_j.simps) (auto simp: at_vec_def split: sum.splits)
    from True have "at_vec res i = Inr (res ! i)" by (simp add: at_vec_def)
    from "1.IH"[OF this _ s(1-5)] True have "length res' = length res1" by simp
    moreover from s(4) have "length res1 = length res"
      by (auto simp: set2_def at_vec_def split: if_splits)
    ultimately show ?thesis by simp
  qed
qed

function operator_mul_loop_k ::
  "'a::{plus,times} Matrix \<Rightarrow> 'a Matrix \<Rightarrow> nat \<Rightarrow> nat \<Rightarrow> 'a list list \<Rightarrow> error + 'a list list"
where
  "operator_mul_loop_k mat1 mat2 i k res =
     (case at_vec (m_matrix mat1) 0 of
        Inl e \<Rightarrow> Inl e
      | Inr row0 \<Rightarrow>
          if k < length row0 then
            (case operator_mul_loop_j mat1 mat2 i k 0 res of
               Inl e \<Rightarrow> Inl e
             | Inr res' \<Rightarrow> operator_mul_loop_k mat1 mat2 i (k + 1) res')
          else Inr res)"
  by pat_completeness auto
termination
  by (relation "measure (\<lambda>(mat1, mat2, i, k, res). length (m_matrix mat1 ! 0) - k)")
     (auto simp: at_vec_def split: if_splits)

declare operator_mul_loop_k.simps [simp del]

lemma operator_mul_loop_k_length:
  "operator_mul_loop_k mat1 mat2 i k res = Inr res' \<Longrightarrow> length res' = length res"
proof (induction mat1 mat2 i k res rule: operator_mul_loop_k.induct)
  case (1 mat1 mat2 i k res)
  show ?case
  proof (cases "0 < length (m_matrix mat1) \<and> k < length (m_matrix mat1 ! 0)")
    case False
    with "1.prems" show ?thesis
      by (subst (asm) operator_mul_loop_k.simps) (auto simp: at_vec_def split: if_splits)
  next
    case True
    with "1.prems" obtain res1 where
      s: "operator_mul_loop_j mat1 mat2 i k 0 res = Inr res1"
         "operator_mul_loop_k mat1 mat2 i (k + 1) res1 = Inr res'"
      by (subst (asm) operator_mul_loop_k.simps) (auto simp: at_vec_def split: sum.splits)
    from True have "at_vec (m_matrix mat1) 0 = Inr (m_matrix mat1 ! 0)" by (simp add: at_vec_def)
    from "1.IH"[OF this _ s] True have "length res' = length res1" by simp
    with operator_mul_loop_j_length[OF s(1)] show ?thesis by simp
  qed
qed

function operator_mul_loop_i ::
  "'a::{plus,times} Matrix \<Rightarrow> 'a Matrix \<Rightarrow> nat \<Rightarrow> 'a list list \<Rightarrow> error + 'a list list"
where
  "operator_mul_loop_i mat1 mat2 i res =
     (if i < length res then
        (case operator_mul_loop_k mat1 mat2 i 0 res of
           Inl e \<Rightarrow> Inl e
         | Inr res' \<Rightarrow> operator_mul_loop_i mat1 mat2 (i + 1) res')
      else Inr res)"
  by pat_completeness auto
termination
  by (relation "measure (\<lambda>(mat1, mat2, i, res). length res - i)")
     (auto dest: operator_mul_loop_k_length)

declare operator_mul_loop_i.simps [simp del]

text \<open>
  \<^verbatim>\<open>operator*\<close>: the dimension check (which reads \<^verbatim>\<open>mat1.m_matrix[0]\<close>), the result
  \<^verbatim>\<open>Matrix<T> res(mat1.m_matrix.size(), mat2.m_matrix[0].size())\<close> filled with the default
  \<^verbatim>\<open>value=0\<close>, and the loops.
\<close>

definition operator_mul :: "'a::{zero,plus,times} Matrix \<Rightarrow> 'a Matrix \<Rightarrow> error + 'a Matrix" where
  "operator_mul mat1 mat2 =
     (case at_vec (m_matrix mat1) 0 of
        Inl e \<Rightarrow> Inl e
      | Inr a0 \<Rightarrow>
          if length a0 \<noteq> length (m_matrix mat2) then Inl DimensionMismatchAbort
          else
            (case at_vec (m_matrix mat2) 0 of
               Inl e \<Rightarrow> Inl e
             | Inr b0 \<Rightarrow>
                 (case operator_mul_loop_i mat1 mat2 0
                         (m_matrix (Matrix_of_dims (length (m_matrix mat1)) (length b0) 0)) of
                    Inl e \<Rightarrow> Inl e
                  | Inr res \<Rightarrow> Inr \<lparr>m_matrix = res\<rparr>)))"

subsection \<open>The original implementation\<close>

text \<open>
  The source keeps its first multiplication in a comment ("Original implementation of matrix
  multiplication. Tested to be slower than the other implementation."): the same check, as an
  \<^verbatim>\<open>assert\<close>, the same result matrix, and the loops in the order \<^verbatim>\<open>i\<close>, \<^verbatim>\<open>j\<close>, \<^verbatim>\<open>k\<close>, so
  that each cell receives its whole dot product before the next cell is touched.
\<close>

function operator_mul_orig_loop_k ::
  "'a::{plus,times} Matrix \<Rightarrow> 'a Matrix \<Rightarrow> nat \<Rightarrow> nat \<Rightarrow> nat \<Rightarrow> 'a list list \<Rightarrow> error + 'a list list"
where
  "operator_mul_orig_loop_k mat1 mat2 i j k res =
     (case at_vec (m_matrix mat1) 0 of
        Inl e \<Rightarrow> Inl e
      | Inr row0 \<Rightarrow>
          if k < length row0 then
            (case at2 res i j of
               Inl e \<Rightarrow> Inl e
             | Inr r \<Rightarrow>
                 (case at2 (m_matrix mat1) i k of
                    Inl e \<Rightarrow> Inl e
                  | Inr a \<Rightarrow>
                      (case at2 (m_matrix mat2) k j of
                         Inl e \<Rightarrow> Inl e
                       | Inr b \<Rightarrow>
                           (case set2 res i j (r + a * b) of
                              Inl e \<Rightarrow> Inl e
                            | Inr res' \<Rightarrow> operator_mul_orig_loop_k mat1 mat2 i j (k + 1) res'))))
          else Inr res)"
  by pat_completeness auto
termination
  by (relation "measure (\<lambda>(mat1, mat2, i, j, k, res). length (m_matrix mat1 ! 0) - k)")
     (auto simp: at_vec_def split: if_splits)

declare operator_mul_orig_loop_k.simps [simp del]

lemma set2_lengths:
  "set2 m i j x = Inr m' \<Longrightarrow> map length m' = map length m"
  by (auto simp: set2_def at_vec_def map_update list_update_same_conv split: if_splits)

lemma operator_mul_orig_loop_k_lengths:
  "operator_mul_orig_loop_k mat1 mat2 i j k res = Inr res' \<Longrightarrow> map length res' = map length res"
proof (induction mat1 mat2 i j k res rule: operator_mul_orig_loop_k.induct)
  case (1 mat1 mat2 i j k res)
  show ?case
  proof (cases "0 < length (m_matrix mat1) \<and> k < length (m_matrix mat1 ! 0)")
    case False
    with "1.prems" show ?thesis
      by (subst (asm) operator_mul_orig_loop_k.simps) (auto simp: at_vec_def split: if_splits)
  next
    case True
    with "1.prems" obtain r a b res1 where
      s: "at2 res i j = Inr r" "at2 (m_matrix mat1) i k = Inr a" "at2 (m_matrix mat2) k j = Inr b"
         "set2 res i j (r + a * b) = Inr res1"
         "operator_mul_orig_loop_k mat1 mat2 i j (k + 1) res1 = Inr res'"
      by (subst (asm) operator_mul_orig_loop_k.simps) (auto simp: at_vec_def split: sum.splits)
    from True have "at_vec (m_matrix mat1) 0 = Inr (m_matrix mat1 ! 0)" by (simp add: at_vec_def)
    from "1.IH"[OF this _ s(1-5)] True have "map length res' = map length res1" by simp
    with set2_lengths[OF s(4)] show ?thesis by simp
  qed
qed

lemma map_length_nth:
  "map length xs = map length ys \<Longrightarrow> i < length ys \<Longrightarrow> length (xs ! i) = length (ys ! i)"
  by (metis length_map nth_map)

function operator_mul_orig_loop_j ::
  "'a::{plus,times} Matrix \<Rightarrow> 'a Matrix \<Rightarrow> nat \<Rightarrow> nat \<Rightarrow> 'a list list \<Rightarrow> error + 'a list list"
where
  "operator_mul_orig_loop_j mat1 mat2 i j res =
     (case at_vec res i of
        Inl e \<Rightarrow> Inl e
      | Inr res_i \<Rightarrow>
          if j < length res_i then
            (case operator_mul_orig_loop_k mat1 mat2 i j 0 res of
               Inl e \<Rightarrow> Inl e
             | Inr res' \<Rightarrow> operator_mul_orig_loop_j mat1 mat2 i (j + 1) res')
          else Inr res)"
  by pat_completeness auto
termination
proof (relation "measure (\<lambda>(mat1, mat2, i, j, res). length (res ! i) - j)")
  fix mat1 mat2 :: "'a Matrix" and i j :: nat and res res' :: "'a list list" and res_i :: "'a list"
  assume a: "at_vec res i = Inr res_i" "j < length res_i"
    "operator_mul_orig_loop_k mat1 mat2 i j 0 res = Inr res'"
  from a(1) have i: "i < length res" "res_i = res ! i"
    by (auto simp: at_vec_def split: if_splits)
  from operator_mul_orig_loop_k_lengths[OF a(3)] i(1)
  have "length (res' ! i) = length (res ! i)" by (rule map_length_nth)
  with a(2) i
  show "((mat1, mat2, i, j + 1, res'), (mat1, mat2, i, j, res))
          \<in> measure (\<lambda>(mat1, mat2, i, j, res). length (res ! i) - j)"
    by simp
qed simp

declare operator_mul_orig_loop_j.simps [simp del]

lemma operator_mul_orig_loop_j_lengths:
  "operator_mul_orig_loop_j mat1 mat2 i j res = Inr res' \<Longrightarrow> map length res' = map length res"
proof (induction mat1 mat2 i j res rule: operator_mul_orig_loop_j.induct)
  case (1 mat1 mat2 i j res)
  show ?case
  proof (cases "i < length res \<and> j < length (res ! i)")
    case False
    with "1.prems" show ?thesis
      by (subst (asm) operator_mul_orig_loop_j.simps) (auto simp: at_vec_def split: if_splits)
  next
    case True
    with "1.prems" obtain res1 where
      s: "operator_mul_orig_loop_k mat1 mat2 i j 0 res = Inr res1"
         "operator_mul_orig_loop_j mat1 mat2 i (j + 1) res1 = Inr res'"
      by (subst (asm) operator_mul_orig_loop_j.simps) (auto simp: at_vec_def split: sum.splits)
    from True have "at_vec res i = Inr (res ! i)" by (simp add: at_vec_def)
    from "1.IH"[OF this _ s] True have "map length res' = map length res1" by simp
    with operator_mul_orig_loop_k_lengths[OF s(1)] show ?thesis by simp
  qed
qed

function operator_mul_orig_loop_i ::
  "'a::{plus,times} Matrix \<Rightarrow> 'a Matrix \<Rightarrow> nat \<Rightarrow> 'a list list \<Rightarrow> error + 'a list list"
where
  "operator_mul_orig_loop_i mat1 mat2 i res =
     (if i < length res then
        (case operator_mul_orig_loop_j mat1 mat2 i 0 res of
           Inl e \<Rightarrow> Inl e
         | Inr res' \<Rightarrow> operator_mul_orig_loop_i mat1 mat2 (i + 1) res')
      else Inr res)"
  by pat_completeness auto
termination
proof (relation "measure (\<lambda>(mat1, mat2, i, res). length res - i)")
  fix mat1 mat2 :: "'a Matrix" and i :: nat and res res' :: "'a list list"
  assume a: "i < length res" "operator_mul_orig_loop_j mat1 mat2 i 0 res = Inr res'"
  from operator_mul_orig_loop_j_lengths[OF a(2)] have "length res' = length res"
    by (metis length_map)
  with a(1) show "((mat1, mat2, i + 1, res'), (mat1, mat2, i, res))
                    \<in> measure (\<lambda>(mat1, mat2, i, res). length res - i)"
    by simp
qed simp

declare operator_mul_orig_loop_i.simps [simp del]

definition operator_mul_orig ::
  "'a::{zero,plus,times} Matrix \<Rightarrow> 'a Matrix \<Rightarrow> error + 'a Matrix"
where
  "operator_mul_orig mat1 mat2 =
     (case at_vec (m_matrix mat1) 0 of
        Inl e \<Rightarrow> Inl e
      | Inr a0 \<Rightarrow>
          if \<not> (length a0 = length (m_matrix mat2)) then Inl AssertionFailed
          else
            (case at_vec (m_matrix mat2) 0 of
               Inl e \<Rightarrow> Inl e
             | Inr b0 \<Rightarrow>
                 (case operator_mul_orig_loop_i mat1 mat2 0
                         (m_matrix (Matrix_of_dims (length (m_matrix mat1)) (length b0) 0)) of
                    Inl e \<Rightarrow> Inl e
                  | Inr res \<Rightarrow> Inr \<lparr>m_matrix = res\<rparr>)))"

section \<open>\<^verbatim>\<open>transpose()\<close>\<close>

text \<open>
  \<^verbatim>\<open>res.m_matrix[j][i] = m_matrix[i][j]\<close> for \<^verbatim>\<open>j\<close> below \<^verbatim>\<open>m_matrix[0].size()\<close>, inside the
  loop over \<^verbatim>\<open>i\<close> below \<^verbatim>\<open>m_matrix.size()\<close>. The state of the loops is \<^verbatim>\<open>res.m_matrix\<close>.
\<close>

function transpose_loop_j :: "'a Matrix \<Rightarrow> nat \<Rightarrow> nat \<Rightarrow> 'a list list \<Rightarrow> error + 'a list list" where
  "transpose_loop_j this i j res =
     (case at_vec (m_matrix this) 0 of
        Inl e \<Rightarrow> Inl e
      | Inr row0 \<Rightarrow>
          if j < length row0 then
            (case at2 (m_matrix this) i j of
               Inl e \<Rightarrow> Inl e
             | Inr x \<Rightarrow>
                 (case set2 res j i x of
                    Inl e \<Rightarrow> Inl e
                  | Inr res' \<Rightarrow> transpose_loop_j this i (j + 1) res'))
          else Inr res)"
  by pat_completeness auto
termination
  by (relation "measure (\<lambda>(this, i, j, res). length (m_matrix this ! 0) - j)")
     (auto simp: at_vec_def split: if_splits)

declare transpose_loop_j.simps [simp del]

function transpose_loop_i :: "'a Matrix \<Rightarrow> nat \<Rightarrow> 'a list list \<Rightarrow> error + 'a list list" where
  "transpose_loop_i this i res =
     (if i < length (m_matrix this) then
        (case transpose_loop_j this i 0 res of
           Inl e \<Rightarrow> Inl e
         | Inr res' \<Rightarrow> transpose_loop_i this (i + 1) res')
      else Inr res)"
  by pat_completeness auto
termination
  by (relation "measure (\<lambda>(this, i, res). length (m_matrix this) - i)") auto

declare transpose_loop_i.simps [simp del]

text \<open>
  \<^verbatim>\<open>transpose()\<close> is a member function that is not \<^verbatim>\<open>const\<close>, so the model returns the receiver
  as the call leaves it together with the returned matrix. The body has no assignment to
  \<^verbatim>\<open>this->m_matrix\<close>: it builds \<^verbatim>\<open>Matrix<T> res(m_matrix[0].size(), m_matrix.size())\<close> and
  writes to \<^verbatim>\<open>res\<close> only.
\<close>

definition Matrix_transpose :: "'a::zero Matrix \<Rightarrow> error + ('a Matrix \<times> 'a Matrix)" where
  "Matrix_transpose this =
     (case at_vec (m_matrix this) 0 of
        Inl e \<Rightarrow> Inl e
      | Inr row0 \<Rightarrow>
          (case transpose_loop_i this 0
                  (m_matrix (Matrix_of_dims (length row0) (length (m_matrix this)) 0)) of
             Inl e \<Rightarrow> Inl e
           | Inr res \<Rightarrow> Inr (this, \<lparr>m_matrix = res\<rparr>)))"

section \<open>Stream output\<close>

text \<open>
  A \<^verbatim>\<open>std::ostream\<close> is the text written to it so far; \<^verbatim>\<open><<\<close> appends. How an element of type
  \<^verbatim>\<open>T\<close> is written is \<^verbatim>\<open>T\<close>'s own \<^verbatim>\<open>operator<<\<close>, the parameter \<open>put\<close> below. The standard
  library writes a \<^verbatim>\<open>size_t\<close> and an \<^verbatim>\<open>int\<close> in decimal.
\<close>

type_synonym ostream = string

definition digit_char :: "nat \<Rightarrow> char" where
  "digit_char d = ''0123456789'' ! d"

function put_size_t :: "nat \<Rightarrow> string" where
  "put_size_t n = (if n < 10 then [digit_char n] else put_size_t (n div 10) @ [digit_char (n mod 10)])"
  by pat_completeness auto
termination
  by (relation "measure (\<lambda>n. n)") auto

declare put_size_t.simps [simp del]

definition put_int :: "int \<Rightarrow> string" where
  "put_int x = (if x < 0 then ''-'' @ put_size_t (nat (- x)) else put_size_t (nat x))"

text \<open>
  \<^verbatim>\<open>mat.m_matrix.size()-1\<close> is a subtraction of \<^verbatim>\<open>size_t\<close> (64 bits): on an empty vector it wraps.
\<close>

definition size_minus_1 :: "nat \<Rightarrow> nat" where
  "size_minus_1 n = (if n = 0 then 2 ^ 64 - 1 else n - 1)"

text \<open>The inner loop of both row loops: \<^verbatim>\<open>output << mat.m_matrix[i][j] << ' '\<close>.\<close>

function operator_shl_loop_j ::
  "('a \<Rightarrow> string) \<Rightarrow> 'a Matrix \<Rightarrow> nat \<Rightarrow> nat \<Rightarrow> ostream \<Rightarrow> error + ostream"
where
  "operator_shl_loop_j put mat i j output =
     (case at_vec (m_matrix mat) i of
        Inl e \<Rightarrow> Inl e
      | Inr row \<Rightarrow>
          if j < length row then
            (case at2 (m_matrix mat) i j of
               Inl e \<Rightarrow> Inl e
             | Inr x \<Rightarrow> operator_shl_loop_j put mat i (j + 1) (output @ put x @ '' ''))
          else Inr output)"
  by pat_completeness auto
termination
  by (relation "measure (\<lambda>(put, mat, i, j, output). length (m_matrix mat ! i) - j)")
     (auto simp: at_vec_def split: if_splits)

declare operator_shl_loop_j.simps [simp del]

text \<open>The first loop, over the rows before the last one.\<close>

function operator_shl_loop_first ::
  "('a \<Rightarrow> string) \<Rightarrow> 'a Matrix \<Rightarrow> nat \<Rightarrow> ostream \<Rightarrow> error + ostream"
where
  "operator_shl_loop_first put mat i output =
     (if i < size_minus_1 (length (m_matrix mat)) then
        (case operator_shl_loop_j put mat i 0 (output @ ''[ '') of
           Inl e \<Rightarrow> Inl e
         | Inr output' \<Rightarrow>
             operator_shl_loop_first put mat (i + 1) (output' @ '']'' @ [CHR 0x0A, CHR '' '']))
      else Inr output)"
  by pat_completeness auto
termination
  by (relation "measure (\<lambda>(put, mat, i, output). size_minus_1 (length (m_matrix mat)) - i)") auto

declare operator_shl_loop_first.simps [simp del]

text \<open>The second loop, which starts at \<^verbatim>\<open>mat.m_matrix.size()-1\<close> and writes the last row.\<close>

function operator_shl_loop_last ::
  "('a \<Rightarrow> string) \<Rightarrow> 'a Matrix \<Rightarrow> nat \<Rightarrow> ostream \<Rightarrow> error + ostream"
where
  "operator_shl_loop_last put mat i output =
     (if i < length (m_matrix mat) then
        (case operator_shl_loop_j put mat i 0 (output @ ''[ '') of
           Inl e \<Rightarrow> Inl e
         | Inr output' \<Rightarrow> operator_shl_loop_last put mat (i + 1) (output' @ '']''))
      else Inr output)"
  by pat_completeness auto
termination
  by (relation "measure (\<lambda>(put, mat, i, output). length (m_matrix mat) - i)") auto

declare operator_shl_loop_last.simps [simp del]

definition operator_shl_matrix ::
  "('a \<Rightarrow> string) \<Rightarrow> ostream \<Rightarrow> 'a Matrix \<Rightarrow> error + ostream"
where
  "operator_shl_matrix put output mat =
     (case operator_shl_loop_first put mat 0 (output @ ''['') of
        Inl e \<Rightarrow> Inl e
      | Inr output1 \<Rightarrow>
          (case operator_shl_loop_last put mat (size_minus_1 (length (m_matrix mat))) output1 of
             Inl e \<Rightarrow> Inl e
           | Inr output2 \<Rightarrow> Inr (output2 @ '']'' @ [CHR 0x0A])))"

text \<open>\<^verbatim>\<open>output << "(" << size.first << ", " << size.second << ")\n"\<close>\<close>

definition operator_shl_pair :: "ostream \<Rightarrow> nat \<times> nat \<Rightarrow> ostream" where
  "operator_shl_pair output sz =
     output @ ''('' @ put_size_t (fst sz) @ '', '' @ put_size_t (snd sz) @ '')'' @ [CHR 0x0A]"

section \<open>Equality\<close>

text \<open>
  \<^verbatim>\<open>operator==\<close> of \<^verbatim>\<open>std::vector\<close>: the sizes are equal and the elements are equal position by
  position, under the elements' own \<^verbatim>\<open>==\<close>.
\<close>

definition vector_eq :: "('a \<Rightarrow> 'a \<Rightarrow> bool) \<Rightarrow> 'a list \<Rightarrow> 'a list \<Rightarrow> bool" where
  "vector_eq eq x y \<longleftrightarrow> length x = length y \<and> list_all (\<lambda>(a, b). eq a b) (zip x y)"

text \<open>\<^verbatim>\<open>return (m1.m_matrix == m2.m_matrix);\<close>\<close>

definition operator_eq :: "'a Matrix \<Rightarrow> 'a Matrix \<Rightarrow> bool" where
  "operator_eq m1 m2 = vector_eq (vector_eq (=)) (m_matrix m1) (m_matrix m2)"

text \<open>\<^verbatim>\<open>return (m1 == m2);\<close>\<close>

definition isSame :: "'a Matrix \<Rightarrow> 'a Matrix \<Rightarrow> bool" where
  "isSame m1 m2 = operator_eq m1 m2"

section \<open>Values used to state the properties\<close>

text \<open>
  What the statement \<^verbatim>\<open>res.m_matrix[i][j] += mat1.m_matrix[i][k] * mat2.m_matrix[k][j]\<close> leaves
  in cell \<open>(i, j)\<close> after it has run for the inner indices \<open>ts\<close>, in this order, from the
  value \<open>a\<close>: the products are added one by one, to the left.
\<close>

definition cell_acc :: "'a::{plus,times} list list \<Rightarrow> 'a list list \<Rightarrow> nat \<Rightarrow> nat \<Rightarrow> 'a \<Rightarrow> nat list \<Rightarrow> 'a" where
  "cell_acc A B i j a ts = foldl (\<lambda>acc t. acc + A ! i ! t * B ! t ! j) a ts"

text \<open>
  The grid of the \<open>n \<times> n\<close> identity matrix, \<open>1\<close> on the diagonal and \<open>0\<close> elsewhere. The
  source has no constructor for it; a caller builds it with the nested constructor.
\<close>

definition identity_grid :: "nat \<Rightarrow> 'a::{zero,one} list list" where
  "identity_grid n = map (\<lambda>i. map (\<lambda>j. if i = j then 1 else 0) [0..<n]) [0..<n]"

text \<open>
  The laws of an element \<open>x\<close> that multiplication by the identity matrix relies on: the
  products with \<open>0\<close> and \<open>1\<close> that \<^verbatim>\<open>operator*\<close> forms, and the additions of \<open>0\<close> on either side.
\<close>

definition identity_laws :: "'a::{zero,one,plus,times} \<Rightarrow> bool" where
  "identity_laws x \<longleftrightarrow> x * 0 = 0 \<and> x * 1 = x \<and> 0 + x = x \<and> x + 0 = x"

text \<open>
  \<^verbatim>\<open>Matrix<T>\<close> is instantiated at any numeric type, \<^verbatim>\<open>double\<close> among them. The type below has
  the values of IEEE 754 arithmetic that matter for the laws above, with integers for the
  finite numbers: the two infinities and the not-a-number, with \<open>\<infinity> * 0 = NaN\<close>,
  \<open>\<infinity> + (- \<infinity>) = NaN\<close>, and \<open>NaN\<close> absorbing in both operations.
\<close>

datatype ext_num = Fin int | PInf | NInf | NaN

fun ext_add :: "ext_num \<Rightarrow> ext_num \<Rightarrow> ext_num" where
  "ext_add NaN y = NaN"
| "ext_add x NaN = NaN"
| "ext_add (Fin a) (Fin b) = Fin (a + b)"
| "ext_add PInf NInf = NaN"
| "ext_add NInf PInf = NaN"
| "ext_add PInf y = PInf"
| "ext_add x PInf = PInf"
| "ext_add NInf y = NInf"
| "ext_add x NInf = NInf"

fun ext_mul :: "ext_num \<Rightarrow> ext_num \<Rightarrow> ext_num" where
  "ext_mul NaN y = NaN"
| "ext_mul x NaN = NaN"
| "ext_mul (Fin a) (Fin b) = Fin (a * b)"
| "ext_mul (Fin a) PInf = (if a = 0 then NaN else if 0 < a then PInf else NInf)"
| "ext_mul (Fin a) NInf = (if a = 0 then NaN else if 0 < a then NInf else PInf)"
| "ext_mul PInf (Fin b) = (if b = 0 then NaN else if 0 < b then PInf else NInf)"
| "ext_mul NInf (Fin b) = (if b = 0 then NaN else if 0 < b then NInf else PInf)"
| "ext_mul PInf PInf = PInf"
| "ext_mul PInf NInf = NInf"
| "ext_mul NInf PInf = NInf"
| "ext_mul NInf NInf = PInf"

instantiation ext_num :: "{zero,one,plus,times}"
begin

definition zero_ext_num_def: "0 = Fin 0"

definition one_ext_num_def: "1 = Fin 1"

definition plus_ext_num_def: "x + y = ext_add x y"

definition times_ext_num_def: "x * y = ext_mul x y"

instance ..

end

section \<open>Construction: the shape check and the shapes produced\<close>

text \<open>
  The loop of the nested constructor stops with the abort exactly when some pair of adjacent
  rows, from the position where it starts, differs in length.
\<close>

lemma Matrix_of_nested_loop_result:
  "1 \<le> row \<Longrightarrow>
   Matrix_of_nested_loop row m =
     (if \<exists>r. row \<le> r \<and> r < length m \<and> length (m ! (r - 1)) \<noteq> length (m ! r)
      then Inl RaggedShapeAbort else Inr ())"
proof (induction row m rule: Matrix_of_nested_loop.induct)
  case (1 row m)
  show ?case
  proof (cases "row < length m")
    case False
    then show ?thesis by (subst Matrix_of_nested_loop.simps) auto
  next
    case True
    with "1.prems" have at: "at_vec m (row - 1) = Inr (m ! (row - 1))" "at_vec m row = Inr (m ! row)"
      by (auto simp: at_vec_def)
    show ?thesis
    proof (cases "length (m ! (row - 1)) = length (m ! row)")
      case False
      with True at show ?thesis
        by (subst Matrix_of_nested_loop.simps) auto
    next
      case eq: True
      from "1.IH"[OF True at(1) at(2)] eq "1.prems"
      have ih: "Matrix_of_nested_loop (row + 1) m =
        (if \<exists>r. row + 1 \<le> r \<and> r < length m \<and> length (m ! (r - 1)) \<noteq> length (m ! r)
         then Inl RaggedShapeAbort else Inr ())" by simp
      have "(\<exists>r. row + 1 \<le> r \<and> r < length m \<and> length (m ! (r - 1)) \<noteq> length (m ! r))
          \<longleftrightarrow> (\<exists>r. row \<le> r \<and> r < length m \<and> length (m ! (r - 1)) \<noteq> length (m ! r))"
      proof
        assume "\<exists>r. row + 1 \<le> r \<and> r < length m \<and> length (m ! (r - 1)) \<noteq> length (m ! r)"
        then obtain r where "row + 1 \<le> r" "r < length m" "length (m ! (r - 1)) \<noteq> length (m ! r)"
          by blast
        then have "row \<le> r \<and> r < length m \<and> length (m ! (r - 1)) \<noteq> length (m ! r)" by simp
        then show "\<exists>r. row \<le> r \<and> r < length m \<and> length (m ! (r - 1)) \<noteq> length (m ! r)" ..
      next
        assume "\<exists>r. row \<le> r \<and> r < length m \<and> length (m ! (r - 1)) \<noteq> length (m ! r)"
        then obtain r where r: "row \<le> r" "r < length m" "length (m ! (r - 1)) \<noteq> length (m ! r)"
          by blast
        with eq have "r \<noteq> row" by auto
        with r have "row + 1 \<le> r \<and> r < length m \<and> length (m ! (r - 1)) \<noteq> length (m ! r)" by simp
        then show "\<exists>r. row + 1 \<le> r \<and> r < length m \<and> length (m ! (r - 1)) \<noteq> length (m ! r)" ..
      qed
      with ih True at eq show ?thesis
        by (subst Matrix_of_nested_loop.simps) simp
    qed
  qed
qed

lemma adjacent_equal_all_equal:
  assumes "\<forall>r. 1 \<le> r \<and> r < length m \<longrightarrow> length (m ! (r - 1)) = length (m ! r)"
  shows "i < length m \<Longrightarrow> length (m ! i) = length (m ! 0)"
proof (induction i)
  case 0
  show ?case by simp
next
  case (Suc i)
  with assms[rule_format, of "Suc i"] show ?case by simp
qed

lemma Matrix_of_nested_ragged_iff:
  "Matrix_of_nested mat = Inl RaggedShapeAbort \<longleftrightarrow>
     (\<exists>i j. i < length mat \<and> j < length mat \<and> length (mat ! i) \<noteq> length (mat ! j))"
proof -
  let ?adj = "\<exists>r. 1 \<le> r \<and> r < length mat \<and> length (mat ! (r - 1)) \<noteq> length (mat ! r)"
  have "?adj \<longleftrightarrow> (\<exists>i j. i < length mat \<and> j < length mat \<and> length (mat ! i) \<noteq> length (mat ! j))"
  proof
    assume ?adj
    then obtain r where "1 \<le> r" "r < length mat" "length (mat ! (r - 1)) \<noteq> length (mat ! r)"
      by blast
    then show "\<exists>i j. i < length mat \<and> j < length mat \<and> length (mat ! i) \<noteq> length (mat ! j)"
      by (intro exI[of _ "r - 1"] exI[of _ r]) simp
  next
    assume "\<exists>i j. i < length mat \<and> j < length mat \<and> length (mat ! i) \<noteq> length (mat ! j)"
    then obtain i j where ij: "i < length mat" "j < length mat" "length (mat ! i) \<noteq> length (mat ! j)"
      by blast
    show ?adj
    proof (rule ccontr)
      assume "\<not> ?adj"
      then have "\<forall>r. 1 \<le> r \<and> r < length mat \<longrightarrow> length (mat ! (r - 1)) = length (mat ! r)"
        by blast
      from adjacent_equal_all_equal[OF this] ij
      have "length (mat ! i) = length (mat ! 0)" "length (mat ! j) = length (mat ! 0)" by blast+
      with ij(3) show False by simp
    qed
  qed
  moreover have "Matrix_of_nested mat = Inl RaggedShapeAbort \<longleftrightarrow> ?adj"
  proof -
    have "Matrix_of_nested_loop 1 mat = (if ?adj then Inl RaggedShapeAbort else Inr ())"
      by (rule Matrix_of_nested_loop_result) simp
    then show ?thesis
      unfolding Matrix_of_nested_def by (cases ?adj) simp_all
  qed
  ultimately show ?thesis by (rule trans[rotated])
qed

lemma Matrix_of_nested_cases:
  "Matrix_of_nested mat = Inl RaggedShapeAbort \<or> Matrix_of_nested mat = Inr \<lparr>m_matrix = mat\<rparr>"
proof -
  let ?adj = "\<exists>r. 1 \<le> r \<and> r < length mat \<and> length (mat ! (r - 1)) \<noteq> length (mat ! r)"
  have "Matrix_of_nested_loop 1 mat = (if ?adj then Inl RaggedShapeAbort else Inr ())"
    by (rule Matrix_of_nested_loop_result) simp
  then show ?thesis
    unfolding Matrix_of_nested_def by (cases ?adj) simp_all
qed

lemma shape_rectangular: "shape m r c \<Longrightarrow> rectangular m"
  unfolding shape_def rectangular_def list_all_iff by simp

lemma rectangular_shape:
  "rectangular m \<Longrightarrow> m_matrix m \<noteq> [] \<Longrightarrow> shape m (length (m_matrix m)) (length (m_matrix m ! 0))"
proof -
  assume rect: "rectangular m" and ne: "m_matrix m \<noteq> []"
  from ne have "m_matrix m ! 0 \<in> set (m_matrix m)" by simp
  with rect have "\<forall>row \<in> set (m_matrix m). length row = length (m_matrix m ! 0)"
    unfolding rectangular_def list_all_iff by blast
  then show ?thesis
    unfolding shape_def list_all_iff by blast
qed

lemma Matrix_of_nested_Inr:
  "Matrix_of_nested mat = Inr m \<longleftrightarrow>
     m = \<lparr>m_matrix = mat\<rparr> \<and> (\<forall>i j. i < length mat \<and> j < length mat \<longrightarrow> length (mat ! i) = length (mat ! j))"
proof (cases "Matrix_of_nested mat = Inl RaggedShapeAbort")
  case True
  then have "\<exists>i j. i < length mat \<and> j < length mat \<and> length (mat ! i) \<noteq> length (mat ! j)"
    by (simp only: Matrix_of_nested_ragged_iff)
  then have "\<not> (\<forall>i j. i < length mat \<and> j < length mat \<longrightarrow> length (mat ! i) = length (mat ! j))"
    by blast
  moreover from True have "Matrix_of_nested mat \<noteq> Inr m" by simp
  ultimately show ?thesis by blast
next
  case False
  then have "\<not> (\<exists>i j. i < length mat \<and> j < length mat \<and> length (mat ! i) \<noteq> length (mat ! j))"
    unfolding Matrix_of_nested_ragged_iff .
  then have "\<forall>i j. i < length mat \<and> j < length mat \<longrightarrow> length (mat ! i) = length (mat ! j)"
    by blast
  moreover from False Matrix_of_nested_cases[of mat]
  have "Matrix_of_nested mat = Inr \<lparr>m_matrix = mat\<rparr>" by blast
  then have "Matrix_of_nested mat = Inr m \<longleftrightarrow> m = \<lparr>m_matrix = mat\<rparr>" by auto
  ultimately show ?thesis by blast
qed

text \<open>
  Claim C4. The nested-sequence constructor fails, with the abort \<open>RaggedShapeAbort\<close> and no
  matrix, whenever two rows of the input differ in length; the check that decides it compares
  adjacent rows only (the last conjunct). On an input whose rows all have one length \<open>c\<close> the
  construction succeeds, with the input as its grid and the shape \<open>(length mat, c)\<close>.
\<close>

theorem Matrix_of_nested_checks_rows:
  "((\<exists>i j. i < length mat \<and> j < length mat \<and> length (mat ! i) \<noteq> length (mat ! j)) \<longrightarrow>
      Matrix_of_nested mat = Inl RaggedShapeAbort) \<and>
   ((\<forall>row \<in> set mat. length row = c) \<longrightarrow>
      Matrix_of_nested mat = Inr \<lparr>m_matrix = mat\<rparr> \<and> shape \<lparr>m_matrix = mat\<rparr> (length mat) c) \<and>
   (Matrix_of_nested mat = Inl RaggedShapeAbort \<longleftrightarrow>
      (\<exists>row. 1 \<le> row \<and> row < length mat \<and> length (mat ! (row - 1)) \<noteq> length (mat ! row)))"
proof (intro conjI impI)
  assume "\<exists>i j. i < length mat \<and> j < length mat \<and> length (mat ! i) \<noteq> length (mat ! j)"
  then show "Matrix_of_nested mat = Inl RaggedShapeAbort"
    by (simp only: Matrix_of_nested_ragged_iff)
next
  assume c: "\<forall>row \<in> set mat. length row = c"
  then have "\<forall>i j. i < length mat \<and> j < length mat \<longrightarrow> length (mat ! i) = length (mat ! j)"
    by simp
  then show "Matrix_of_nested mat = Inr \<lparr>m_matrix = mat\<rparr>"
    by (simp only: Matrix_of_nested_Inr simp_thms)
  from c show "shape \<lparr>m_matrix = mat\<rparr> (length mat) c"
    by (simp add: shape_def list_all_iff)
next
  have "Matrix_of_nested_loop 1 mat =
     (if \<exists>r. 1 \<le> r \<and> r < length mat \<and> length (mat ! (r - 1)) \<noteq> length (mat ! r)
      then Inl RaggedShapeAbort else Inr ())"
    by (rule Matrix_of_nested_loop_result) simp
  then show "Matrix_of_nested mat = Inl RaggedShapeAbort \<longleftrightarrow>
      (\<exists>row. 1 \<le> row \<and> row < length mat \<and> length (mat ! (row - 1)) \<noteq> length (mat ! row))"
    unfolding Matrix_of_nested_def
    by (cases "\<exists>r. 1 \<le> r \<and> r < length mat \<and> length (mat ! (r - 1)) \<noteq> length (mat ! r)") simp_all
qed

text \<open>
  The two nested inputs of the specification's examples: \<^verbatim>\<open>[[1,2],[3,4,5]]\<close> fails,
  \<^verbatim>\<open>[[1,2,3],[4,5,6]]\<close> gives shape \<open>(2, 3)\<close>.
\<close>

theorem Matrix_of_nested_checks_rows_witness:
  "Matrix_of_nested [[1, 2], [3, 4, 5 :: int]] = Inl RaggedShapeAbort \<and>
   Matrix_of_nested [[1, 2, 3], [4, 5, 6 :: int]] = Inr \<lparr>m_matrix = [[1, 2, 3], [4, 5, 6]]\<rparr> \<and>
   shape \<lparr>m_matrix = [[1, 2, 3], [4, 5, 6 :: int]]\<rparr> 2 3"
proof -
  have "\<exists>i j. i < length [[1, 2], [3, 4, 5 :: int]] \<and> j < length [[1, 2], [3, 4, 5 :: int]] \<and>
          length ([[1, 2], [3, 4, 5 :: int]] ! i) \<noteq> length ([[1, 2], [3, 4, 5 :: int]] ! j)"
    by (intro exI[of _ 0] exI[of _ 1]) simp
  with Matrix_of_nested_checks_rows[of "[[1, 2], [3, 4, 5 :: int]]"]
  have "Matrix_of_nested [[1, 2], [3, 4, 5 :: int]] = Inl RaggedShapeAbort" by blast
  moreover have "\<forall>row \<in> set [[1, 2, 3], [4, 5, 6 :: int]]. length row = 3" by simp
  with Matrix_of_nested_checks_rows[of "[[1, 2, 3], [4, 5, 6 :: int]]" 3]
  have "Matrix_of_nested [[1, 2, 3], [4, 5, 6 :: int]] = Inr \<lparr>m_matrix = [[1, 2, 3], [4, 5, 6]]\<rparr> \<and>
        shape \<lparr>m_matrix = [[1, 2, 3], [4, 5, 6 :: int]]\<rparr> (length [[1, 2, 3], [4, 5, 6 :: int]]) 3"
    by blast
  ultimately show ?thesis by (simp add: numeral_2_eq_2)
qed

text \<open>
  On arguments that give at least one row and one column every constructor establishes the
  invariant of the data model.
\<close>

lemma constructors_nonempty_arguments:
  "min_shape (Matrix_of_scalar v) \<and>
   (1 \<le> length xs \<longrightarrow> min_shape (Matrix_of_vector xs)) \<and>
   (1 \<le> r \<and> 1 \<le> c \<longrightarrow> min_shape (Matrix_of_dims r c v)) \<and>
   (Matrix_of_nested mat = Inr m \<and> 1 \<le> length mat \<and> 1 \<le> length (mat ! 0) \<longrightarrow> min_shape m)"
proof (intro conjI impI)
  show "min_shape (Matrix_of_scalar v)"
    by (simp add: Matrix_of_scalar_def shape_def min_shape_def)
next
  assume "1 \<le> length xs"
  then show "min_shape (Matrix_of_vector xs)"
    by (simp add: Matrix_of_vector_def shape_def min_shape_def)
next
  assume "1 \<le> r \<and> 1 \<le> c"
  then show "min_shape (Matrix_of_dims r c v)"
    by (cases r) (simp_all add: Matrix_of_dims_def shape_def min_shape_def list_all_iff)
next
  assume a: "Matrix_of_nested mat = Inr m \<and> 1 \<le> length mat \<and> 1 \<le> length (mat ! 0)"
  note split = Matrix_of_nested_Inr[THEN iffD1, OF a[THEN conjunct1]]
  from split[THEN conjunct1] have m: "m_matrix m = mat" by simp
  have "length (mat ! i) = length (mat ! j)" if "i < length mat" "j < length mat" for i j
    using split[THEN conjunct2] that by blast
  then have "rectangular m"
    unfolding rectangular_def m list_all_length by blast
  moreover from a have ne: "mat \<noteq> []" by auto
  ultimately have "shape m (length mat) (length (mat ! 0))"
    using rectangular_shape[of m] m by simp
  with a ne show "min_shape m"
    by (cases mat) (simp_all add: min_shape_def m)
qed

text \<open>
  Claim C2 says that no constructor yields a matrix with zero rows or zero columns, and the
  source says the same where it deletes the default constructor ("Matrix cannot be
  initialized empty"). The other constructors have no check that would keep the promise:
  \<^verbatim>\<open>Matrix<int>(0, 0)\<close> is a matrix with no rows, on which \<^verbatim>\<open>size()\<close>, \<^verbatim>\<open>transpose()\<close>,
  \<^verbatim>\<open>operator*\<close> and \<^verbatim>\<open>operator<<\<close> all read \<^verbatim>\<open>m_matrix[0]\<close> out of range;
  \<^verbatim>\<open>Matrix<int>(std::vector<int>{})\<close> has one row and no column, \<^verbatim>\<open>Matrix<int>(2, 0)\<close> two rows
  and no column, and the nested constructor accepts the empty sequence.
\<close>

theorem constructors_accept_empty_shape:
  "Matrix_of_dims 0 0 (0 :: int) = \<lparr>m_matrix = []\<rparr> \<and>
   \<not> min_shape (Matrix_of_dims 0 0 (0 :: int)) \<and>
   Matrix_size (Matrix_of_dims 0 0 (0 :: int)) = Inl OutOfRange \<and>
   Matrix_transpose (Matrix_of_dims 0 0 (0 :: int)) = Inl OutOfRange \<and>
   operator_mul (Matrix_of_dims 0 0 (0 :: int)) (Matrix_of_dims 0 0 0) = Inl OutOfRange \<and>
   operator_shl_matrix put_int [] (Matrix_of_dims 0 0 (0 :: int)) = Inl OutOfRange \<and>
   Matrix_of_vector ([] :: int list) = \<lparr>m_matrix = [[]]\<rparr> \<and>
   \<not> min_shape (Matrix_of_vector ([] :: int list)) \<and>
   Matrix_of_dims 2 0 (0 :: int) = \<lparr>m_matrix = [[], []]\<rparr> \<and>
   \<not> min_shape (Matrix_of_dims 2 0 (0 :: int)) \<and>
   Matrix_of_nested ([] :: int list list) = Inr \<lparr>m_matrix = []\<rparr>"
proof -
  have e: "Matrix_of_dims 0 0 (0 :: int) = \<lparr>m_matrix = []\<rparr>" by (simp add: Matrix_of_dims_def)
  have "operator_shl_loop_j put_int \<lparr>m_matrix = ([] :: int list list)\<rparr> 0 0 ([] @ ''['' @ ''[ '')
      = Inl OutOfRange"
    by (subst operator_shl_loop_j.simps) (simp add: at_vec_def)
  then have "operator_shl_loop_first put_int \<lparr>m_matrix = ([] :: int list list)\<rparr> 0 ([] @ ''['')
      = Inl OutOfRange"
    by (subst operator_shl_loop_first.simps) (simp add: size_minus_1_def)
  then have "operator_shl_matrix put_int [] \<lparr>m_matrix = ([] :: int list list)\<rparr> = Inl OutOfRange"
    by (simp add: operator_shl_matrix_def)
  moreover have "Matrix_size \<lparr>m_matrix = ([] :: int list list)\<rparr> = Inl OutOfRange"
    by (simp add: Matrix_size_def at_vec_def)
  moreover have "Matrix_transpose \<lparr>m_matrix = ([] :: int list list)\<rparr> = Inl OutOfRange"
    by (simp add: Matrix_transpose_def at_vec_def)
  moreover have "operator_mul \<lparr>m_matrix = ([] :: int list list)\<rparr> \<lparr>m_matrix = []\<rparr> = Inl OutOfRange"
    by (simp add: operator_mul_def at_vec_def)
  moreover have "\<not> min_shape \<lparr>m_matrix = ([] :: int list list)\<rparr>" by (simp add: min_shape_def)
  moreover have "Matrix_of_vector ([] :: int list) = \<lparr>m_matrix = [[]]\<rparr>"
    "\<not> min_shape (Matrix_of_vector ([] :: int list))"
    "Matrix_of_dims 2 0 (0 :: int) = \<lparr>m_matrix = [[], []]\<rparr>"
    "\<not> min_shape (Matrix_of_dims 2 0 (0 :: int))"
    by (simp_all add: Matrix_of_vector_def Matrix_of_dims_def min_shape_def numeral_2_eq_2)
  moreover have "Matrix_of_nested ([] :: int list list) = Inr \<lparr>m_matrix = []\<rparr>"
    by (simp only: Matrix_of_nested_Inr) simp
  ultimately show ?thesis by (simp add: e)
qed

section \<open>Multiplication: the dimension check\<close>

text \<open>
  Claim C3. When the left operand has a first row (so that its column count exists) and that
  count differs from the number of rows of the right operand, \<^verbatim>\<open>operator*\<close> ends in the
  abort \<open>DimensionMismatchAbort\<close>: it returns no matrix at all.
\<close>

theorem operator_mul_dimension_mismatch:
  "m_matrix lhs \<noteq> [] \<Longrightarrow> length (m_matrix lhs ! 0) \<noteq> length (m_matrix rhs) \<Longrightarrow>
   operator_mul lhs rhs = Inl DimensionMismatchAbort \<and> (\<forall>res. operator_mul lhs rhs \<noteq> Inr res)"
  by (simp add: operator_mul_def at_vec_def)

text \<open>The specification's example: \<^verbatim>\<open>[[1,2,3]]\<close> times \<^verbatim>\<open>[[1,2,3]]\<close>, shapes \<open>(1, 3)\<close> and \<open>(1, 3)\<close>.\<close>

theorem operator_mul_dimension_mismatch_witness:
  "m_matrix (Matrix_of_vector [1, 2, 3 :: int]) \<noteq> [] \<and>
   length (m_matrix (Matrix_of_vector [1, 2, 3 :: int]) ! 0)
     \<noteq> length (m_matrix (Matrix_of_vector [1, 2, 3 :: int])) \<and>
   operator_mul (Matrix_of_vector [1, 2, 3 :: int]) (Matrix_of_vector [1, 2, 3])
     = Inl DimensionMismatchAbort"
  using operator_mul_dimension_mismatch[of "Matrix_of_vector [1, 2, 3 :: int]"
          "Matrix_of_vector [1, 2, 3 :: int]"]
  by (simp add: Matrix_of_vector_def)

section \<open>\<^verbatim>\<open>transpose()\<close>: what the loops compute\<close>

lemma map_nth_upt: "length xs = n \<Longrightarrow> map (\<lambda>i. xs ! i) [0..<n] = xs"
  using map_nth[of xs] by simp

lemma between_Suc: "\<not> Suc j \<le> x \<Longrightarrow> j \<le> x \<Longrightarrow> x = j"
  by simp

lemma transpose_loop_j_result:
  assumes M: "m_matrix this \<noteq> []" "length (m_matrix this ! 0) = c"
    "i < length (m_matrix this)" "length (m_matrix this ! i) = c"
  shows "length res = c \<Longrightarrow> (\<forall>j'<c. i < length (res ! j')) \<Longrightarrow>
    transpose_loop_j this i j res =
      Inr (map (\<lambda>j'. if j \<le> j' then (res ! j')[i := m_matrix this ! i ! j'] else res ! j') [0..<c])"
proof (induction "c - j" arbitrary: j res)
  case 0
  then have "c \<le> j" by simp
  then have "map (\<lambda>j'. if j \<le> j' then (res ! j')[i := m_matrix this ! i ! j'] else res ! j') [0..<c]
      = map (\<lambda>j'. res ! j') [0..<c]"
    by (intro map_cong) auto
  also have "\<dots> = res" using "0.prems"(1) by (rule map_nth_upt)
  finally show ?case
    using M \<open>c \<le> j\<close> by (subst transpose_loop_j.simps) (simp add: at_vec_def)
next
  case (Suc n)
  then have j: "j < c" by simp
  let ?x = "m_matrix this ! i ! j"
  let ?res1 = "res[j := (res ! j)[i := ?x]]"
  have rd: "at2 (m_matrix this) i j = Inr ?x"
    using M j by (simp add: at2_def at_vec_def)
  have wr: "set2 res j i ?x = Inr ?res1"
    using Suc.prems j by (simp add: set2_def at_vec_def)
  have step: "transpose_loop_j this i j res = transpose_loop_j this i (j + 1) ?res1"
    using M j rd wr by (subst transpose_loop_j.simps) (simp add: at_vec_def)
  have "n = c - (j + 1)" using Suc.hyps(2) by simp
  moreover have "length ?res1 = c" using Suc.prems by simp
  moreover have "\<forall>j'<c. i < length (?res1 ! j')"
    using Suc.prems j by (simp add: nth_list_update)
  ultimately have "transpose_loop_j this i (j + 1) ?res1 =
      Inr (map (\<lambda>j'. if j + 1 \<le> j' then (?res1 ! j')[i := m_matrix this ! i ! j'] else ?res1 ! j') [0..<c])"
    by (rule Suc.hyps(1))
  also have "map (\<lambda>j'. if j + 1 \<le> j' then (?res1 ! j')[i := m_matrix this ! i ! j'] else ?res1 ! j') [0..<c]
      = map (\<lambda>j'. if j \<le> j' then (res ! j')[i := m_matrix this ! i ! j'] else res ! j') [0..<c]"
    using Suc.prems(1) by (intro map_cong) (auto simp: nth_list_update dest: between_Suc)
  finally show ?case using step by simp
qed

lemma transpose_loop_i_result:
  assumes M: "length (m_matrix this) = r" "\<forall>i<r. length (m_matrix this ! i) = c"
  shows "length res = c \<Longrightarrow> (\<forall>j<c. length (res ! j) = r) \<Longrightarrow>
    transpose_loop_i this i res =
      Inr (map (\<lambda>j. map (\<lambda>i'. if i \<le> i' then m_matrix this ! i' ! j else res ! j ! i') [0..<r]) [0..<c])"
proof (induction "r - i" arbitrary: i res)
  case 0
  then have "r \<le> i" by simp
  have "map (\<lambda>j. map (\<lambda>i'. if i \<le> i' then m_matrix this ! i' ! j else res ! j ! i') [0..<r]) [0..<c]
      = map (\<lambda>j. res ! j) [0..<c]"
  proof (intro map_cong refl)
    fix j assume "j \<in> set [0..<c]"
    then have "length (res ! j) = r" using "0.prems"(2) by simp
    then have "map (\<lambda>i'. res ! j ! i') [0..<r] = res ! j" by (rule map_nth_upt)
    moreover have "map (\<lambda>i'. if i \<le> i' then m_matrix this ! i' ! j else res ! j ! i') [0..<r]
        = map (\<lambda>i'. res ! j ! i') [0..<r]"
      using \<open>r \<le> i\<close> by (intro map_cong) auto
    ultimately show "map (\<lambda>i'. if i \<le> i' then m_matrix this ! i' ! j else res ! j ! i') [0..<r] = res ! j"
      by simp
  qed
  also have "\<dots> = res" using "0.prems"(1) by (rule map_nth_upt)
  finally show ?case
    using M \<open>r \<le> i\<close> by (subst transpose_loop_i.simps) simp
next
  case (Suc n)
  then have i: "i < r" by simp
  let ?res1 = "map (\<lambda>j'. if 0 \<le> j' then (res ! j')[i := m_matrix this ! i ! j'] else res ! j') [0..<c]"
  have ne: "m_matrix this \<noteq> []" using M i by auto
  have "length (m_matrix this ! 0) = c" using M i by simp
  with ne have inner: "transpose_loop_j this i 0 res = Inr ?res1"
    using M i Suc.prems by (intro transpose_loop_j_result) simp_all
  have step: "transpose_loop_i this i res = transpose_loop_i this (i + 1) ?res1"
    using M i inner by (subst transpose_loop_i.simps) simp
  have "n = r - (i + 1)" using Suc.hyps(2) by simp
  moreover have "length ?res1 = c" by simp
  moreover have "\<forall>j<c. length (?res1 ! j) = r" using Suc.prems by simp
  ultimately have "transpose_loop_i this (i + 1) ?res1 =
      Inr (map (\<lambda>j. map (\<lambda>i'. if i + 1 \<le> i' then m_matrix this ! i' ! j else ?res1 ! j ! i') [0..<r]) [0..<c])"
    by (rule Suc.hyps(1))
  also have "map (\<lambda>j. map (\<lambda>i'. if i + 1 \<le> i' then m_matrix this ! i' ! j else ?res1 ! j ! i') [0..<r]) [0..<c]
      = map (\<lambda>j. map (\<lambda>i'. if i \<le> i' then m_matrix this ! i' ! j else res ! j ! i') [0..<r]) [0..<c]"
  proof (intro map_cong refl)
    fix j i' assume "j \<in> set [0..<c]" "i' \<in> set [0..<r]"
    then have b: "j < c" "i' < r" "i < length (res ! j)" using Suc.prems i by simp_all
    show "(if i + 1 \<le> i' then m_matrix this ! i' ! j else ?res1 ! j ! i')
        = (if i \<le> i' then m_matrix this ! i' ! j else res ! j ! i')"
    proof (cases "i' = i")
      case True
      with b show ?thesis by simp
    next
      case False
      with b show ?thesis by (auto simp: nth_list_update)
    qed
  qed
  finally show ?case using step by simp
qed

lemma shape_nth: "shape m r c \<Longrightarrow> length (m_matrix m) = r \<and> (\<forall>i<r. length (m_matrix m ! i) = c)"
  by (simp add: shape_def list_all_length)

lemma Matrix_transpose_result:
  assumes "shape m r c" "1 \<le> r"
  shows "Matrix_transpose m =
    Inr (m, \<lparr>m_matrix = map (\<lambda>j. map (\<lambda>i. m_matrix m ! i ! j) [0..<r]) [0..<c]\<rparr>)"
proof -
  from shape_nth[OF assms(1)] have M: "length (m_matrix m) = r" "\<forall>i<r. length (m_matrix m ! i) = c"
    by simp_all
  with assms(2) have row0: "at_vec (m_matrix m) 0 = Inr (m_matrix m ! 0)" "length (m_matrix m ! 0) = c"
    by (simp_all add: at_vec_def)
  let ?res0 = "m_matrix (Matrix_of_dims c r (0 :: 'a))"
  have "length ?res0 = c" "\<forall>j<c. length (?res0 ! j) = r"
    by (simp_all add: Matrix_of_dims_def)
  with M have "transpose_loop_i m 0 ?res0 =
      Inr (map (\<lambda>j. map (\<lambda>i'. if 0 \<le> i' then m_matrix m ! i' ! j else ?res0 ! j ! i') [0..<r]) [0..<c])"
    by (rule transpose_loop_i_result)
  then show ?thesis
    using row0 M by (simp add: Matrix_transpose_def)
qed

section \<open>\<^verbatim>\<open>operator*\<close>: what the loops compute\<close>

lemma cell_acc_step:
  "k < n \<Longrightarrow> cell_acc A B i j (a + A ! i ! k * B ! k ! j) [Suc k..<n] = cell_acc A B i j a [k..<n]"
  by (simp add: cell_acc_def upt_conv_Cons)

lemma cell_acc_Nil [simp]: "cell_acc A B i j a [] = a"
  by (simp add: cell_acc_def)

lemma operator_mul_loop_j_result:
  fixes mat1 mat2 :: "'a::{plus,times} Matrix"
  assumes M: "i < length (m_matrix mat1)" "k < length (m_matrix mat1 ! i)"
    "k < length (m_matrix mat2)" "p \<le> length (m_matrix mat2 ! k)"
  shows "i < length res \<Longrightarrow> length (res ! i) = p \<Longrightarrow>
    operator_mul_loop_j mat1 mat2 i k j res =
      Inr (res[i := map (\<lambda>j'. if j \<le> j'
                then res ! i ! j' + m_matrix mat1 ! i ! k * m_matrix mat2 ! k ! j'
                else res ! i ! j') [0..<p]])"
proof (induction "p - j" arbitrary: j res)
  case 0
  then have "p \<le> j" by simp
  then have "map (\<lambda>j'. if j \<le> j'
                then res ! i ! j' + m_matrix mat1 ! i ! k * m_matrix mat2 ! k ! j'
                else res ! i ! j') [0..<p] = map (\<lambda>j'. res ! i ! j') [0..<p]"
    by (intro map_cong) auto
  also have "\<dots> = res ! i" using "0.prems"(2) by (rule map_nth_upt)
  finally show ?case
    using "0.prems" \<open>p \<le> j\<close> by (subst operator_mul_loop_j.simps) (simp add: at_vec_def)
next
  case (Suc n)
  then have j: "j < p" by simp
  let ?v = "res ! i ! j + m_matrix mat1 ! i ! k * m_matrix mat2 ! k ! j"
  let ?res1 = "res[i := (res ! i)[j := ?v]]"
  have rd: "at2 res i j = Inr (res ! i ! j)"
    "at2 (m_matrix mat1) i k = Inr (m_matrix mat1 ! i ! k)"
    "at2 (m_matrix mat2) k j = Inr (m_matrix mat2 ! k ! j)"
    using M j Suc.prems by (simp_all add: at2_def at_vec_def)
  have wr: "set2 res i j ?v = Inr ?res1"
    using Suc.prems j by (simp add: set2_def at_vec_def)
  have step: "operator_mul_loop_j mat1 mat2 i k j res = operator_mul_loop_j mat1 mat2 i k (j + 1) ?res1"
    using Suc.prems j rd wr by (subst operator_mul_loop_j.simps) (simp add: at_vec_def)
  have "n = p - (j + 1)" using Suc.hyps(2) by simp
  moreover have "i < length ?res1" using Suc.prems by simp
  moreover have "length (?res1 ! i) = p" using Suc.prems by simp
  ultimately have "operator_mul_loop_j mat1 mat2 i k (j + 1) ?res1 =
      Inr (?res1[i := map (\<lambda>j'. if j + 1 \<le> j'
                then ?res1 ! i ! j' + m_matrix mat1 ! i ! k * m_matrix mat2 ! k ! j'
                else ?res1 ! i ! j') [0..<p]])"
    by (rule Suc.hyps(1))
  also have "map (\<lambda>j'. if j + 1 \<le> j'
                then ?res1 ! i ! j' + m_matrix mat1 ! i ! k * m_matrix mat2 ! k ! j'
                else ?res1 ! i ! j') [0..<p]
      = map (\<lambda>j'. if j \<le> j'
                then res ! i ! j' + m_matrix mat1 ! i ! k * m_matrix mat2 ! k ! j'
                else res ! i ! j') [0..<p]"
    using Suc.prems by (intro map_cong) (auto simp: nth_list_update dest: between_Suc)
  finally show ?case using step by simp
qed

lemma operator_mul_loop_k_result:
  fixes mat1 mat2 :: "'a::{plus,times} Matrix"
  assumes M: "m_matrix mat1 \<noteq> []" "length (m_matrix mat1 ! 0) = n"
    "i < length (m_matrix mat1)" "length (m_matrix mat1 ! i) = n"
    "n \<le> length (m_matrix mat2)" "\<forall>t<n. p \<le> length (m_matrix mat2 ! t)"
  shows "i < length res \<Longrightarrow> length (res ! i) = p \<Longrightarrow>
    operator_mul_loop_k mat1 mat2 i k res =
      Inr (res[i := map (\<lambda>j. cell_acc (m_matrix mat1) (m_matrix mat2) i j (res ! i ! j) [k..<n])
                      [0..<p]])"
proof (induction "n - k" arbitrary: k res)
  case 0
  then have "n \<le> k" by simp
  then have "map (\<lambda>j. cell_acc (m_matrix mat1) (m_matrix mat2) i j (res ! i ! j) [k..<n]) [0..<p]
      = map (\<lambda>j. res ! i ! j) [0..<p]"
    by simp
  also have "\<dots> = res ! i" using "0.prems"(2) by (rule map_nth_upt)
  finally show ?case
    using M \<open>n \<le> k\<close> by (subst operator_mul_loop_k.simps) (simp add: at_vec_def)
next
  case (Suc d)
  then have k: "k < n" by simp
  let ?row1 = "map (\<lambda>j'. if 0 \<le> j'
                then res ! i ! j' + m_matrix mat1 ! i ! k * m_matrix mat2 ! k ! j'
                else res ! i ! j') [0..<p]"
  let ?res1 = "res[i := ?row1]"
  have inner: "operator_mul_loop_j mat1 mat2 i k 0 res = Inr ?res1"
    using M k Suc.prems by (intro operator_mul_loop_j_result) simp_all
  have step: "operator_mul_loop_k mat1 mat2 i k res = operator_mul_loop_k mat1 mat2 i (k + 1) ?res1"
    using M k inner by (subst operator_mul_loop_k.simps) (simp add: at_vec_def)
  have "d = n - (k + 1)" using Suc.hyps(2) by simp
  moreover have "i < length ?res1" using Suc.prems by simp
  moreover have "length (?res1 ! i) = p" using Suc.prems by simp
  ultimately have "operator_mul_loop_k mat1 mat2 i (k + 1) ?res1 =
      Inr (?res1[i := map (\<lambda>j. cell_acc (m_matrix mat1) (m_matrix mat2) i j (?res1 ! i ! j) [k + 1..<n])
                      [0..<p]])"
    by (rule Suc.hyps(1))
  also have "map (\<lambda>j. cell_acc (m_matrix mat1) (m_matrix mat2) i j (?res1 ! i ! j) [k + 1..<n]) [0..<p]
      = map (\<lambda>j. cell_acc (m_matrix mat1) (m_matrix mat2) i j (res ! i ! j) [k..<n]) [0..<p]"
    using Suc.prems k by (intro map_cong refl) (simp add: cell_acc_step)
  finally show ?case using step by simp
qed

lemma operator_mul_loop_i_result:
  fixes mat1 mat2 :: "'a::{plus,times} Matrix"
  assumes M: "length (m_matrix mat1) = m" "\<forall>i<m. length (m_matrix mat1 ! i) = n"
    "n \<le> length (m_matrix mat2)" "\<forall>t<n. p \<le> length (m_matrix mat2 ! t)"
  shows "length res = m \<Longrightarrow> (\<forall>i<m. length (res ! i) = p) \<Longrightarrow>
    operator_mul_loop_i mat1 mat2 i res =
      Inr (map (\<lambda>i'. if i \<le> i'
                 then map (\<lambda>j. cell_acc (m_matrix mat1) (m_matrix mat2) i' j (res ! i' ! j) [0..<n])
                        [0..<p]
                 else res ! i') [0..<m])"
proof (induction "m - i" arbitrary: i res)
  case 0
  then have "m \<le> i" by simp
  then have "map (\<lambda>i'. if i \<le> i'
                 then map (\<lambda>j. cell_acc (m_matrix mat1) (m_matrix mat2) i' j (res ! i' ! j) [0..<n])
                        [0..<p]
                 else res ! i') [0..<m] = map (\<lambda>i'. res ! i') [0..<m]"
    by (intro map_cong) auto
  also have "\<dots> = res" using "0.prems"(1) by (rule map_nth_upt)
  finally show ?case
    using "0.prems" \<open>m \<le> i\<close> by (subst operator_mul_loop_i.simps) simp
next
  case (Suc d)
  then have i: "i < m" by simp
  let ?row = "map (\<lambda>j. cell_acc (m_matrix mat1) (m_matrix mat2) i j (res ! i ! j) [0..<n]) [0..<p]"
  let ?res1 = "res[i := ?row]"
  have ne: "m_matrix mat1 \<noteq> []" using M i by auto
  have "length (m_matrix mat1 ! 0) = n" using M i by simp
  with ne have inner: "operator_mul_loop_k mat1 mat2 i 0 res = Inr ?res1"
    using M i Suc.prems by (intro operator_mul_loop_k_result) simp_all
  have step: "operator_mul_loop_i mat1 mat2 i res = operator_mul_loop_i mat1 mat2 (i + 1) ?res1"
    using Suc.prems i inner by (subst operator_mul_loop_i.simps) simp
  have "d = m - (i + 1)" using Suc.hyps(2) by simp
  moreover have "length ?res1 = m" using Suc.prems by simp
  moreover have "\<forall>i'<m. length (?res1 ! i') = p"
    using Suc.prems i by (auto simp: nth_list_update)
  ultimately have "operator_mul_loop_i mat1 mat2 (i + 1) ?res1 =
      Inr (map (\<lambda>i'. if i + 1 \<le> i'
                 then map (\<lambda>j. cell_acc (m_matrix mat1) (m_matrix mat2) i' j (?res1 ! i' ! j) [0..<n])
                        [0..<p]
                 else ?res1 ! i') [0..<m])"
    by (rule Suc.hyps(1))
  also have "map (\<lambda>i'. if i + 1 \<le> i'
                 then map (\<lambda>j. cell_acc (m_matrix mat1) (m_matrix mat2) i' j (?res1 ! i' ! j) [0..<n])
                        [0..<p]
                 else ?res1 ! i') [0..<m]
      = map (\<lambda>i'. if i \<le> i'
                 then map (\<lambda>j. cell_acc (m_matrix mat1) (m_matrix mat2) i' j (res ! i' ! j) [0..<n])
                        [0..<p]
                 else res ! i') [0..<m]"
  proof (intro map_cong refl)
    fix i' assume "i' \<in> set [0..<m]"
    then have b: "i' < length res" "i < length res" using Suc.prems i by simp_all
    show "(if i + 1 \<le> i'
             then map (\<lambda>j. cell_acc (m_matrix mat1) (m_matrix mat2) i' j (?res1 ! i' ! j) [0..<n])
                    [0..<p]
             else ?res1 ! i')
        = (if i \<le> i'
             then map (\<lambda>j. cell_acc (m_matrix mat1) (m_matrix mat2) i' j (res ! i' ! j) [0..<n])
                    [0..<p]
             else res ! i')"
    proof (cases "i' = i")
      case True
      with b show ?thesis by simp
    next
      case False
      with b show ?thesis by (auto simp: nth_list_update)
    qed
  qed
  finally show ?case using step by simp
qed

lemma operator_mul_result:
  fixes mat1 mat2 :: "'a::{zero,plus,times} Matrix"
  assumes "shape mat1 m n" "shape mat2 n p" "1 \<le> m" "1 \<le> n"
  shows "operator_mul mat1 mat2 =
    Inr \<lparr>m_matrix = map (\<lambda>i. map (\<lambda>j. cell_acc (m_matrix mat1) (m_matrix mat2) i j 0 [0..<n])
                              [0..<p]) [0..<m]\<rparr>"
proof -
  from shape_nth[OF assms(1)] have A: "length (m_matrix mat1) = m" "\<forall>i<m. length (m_matrix mat1 ! i) = n"
    by simp_all
  from shape_nth[OF assms(2)] have B: "length (m_matrix mat2) = n" "\<forall>t<n. length (m_matrix mat2 ! t) = p"
    by simp_all
  from A assms(3) have a0: "at_vec (m_matrix mat1) 0 = Inr (m_matrix mat1 ! 0)" "length (m_matrix mat1 ! 0) = n"
    by (simp_all add: at_vec_def)
  from B assms(4) have b0: "at_vec (m_matrix mat2) 0 = Inr (m_matrix mat2 ! 0)" "length (m_matrix mat2 ! 0) = p"
    by (simp_all add: at_vec_def)
  let ?res0 = "m_matrix (Matrix_of_dims m p (0 :: 'a))"
  have r0: "length ?res0 = m" "\<forall>i<m. length (?res0 ! i) = p"
    by (simp_all add: Matrix_of_dims_def)
  have B': "n \<le> length (m_matrix mat2)" "\<forall>t<n. p \<le> length (m_matrix mat2 ! t)"
    using B by simp_all
  from A B' r0 have "operator_mul_loop_i mat1 mat2 0 ?res0 =
      Inr (map (\<lambda>i'. if 0 \<le> i'
                 then map (\<lambda>j. cell_acc (m_matrix mat1) (m_matrix mat2) i' j (?res0 ! i' ! j) [0..<n])
                        [0..<p]
                 else ?res0 ! i') [0..<m])"
    by (rule operator_mul_loop_i_result)
  also have "map (\<lambda>i'. if 0 \<le> i'
                 then map (\<lambda>j. cell_acc (m_matrix mat1) (m_matrix mat2) i' j (?res0 ! i' ! j) [0..<n])
                        [0..<p]
                 else ?res0 ! i') [0..<m]
     = map (\<lambda>i. map (\<lambda>j. cell_acc (m_matrix mat1) (m_matrix mat2) i j 0 [0..<n]) [0..<p]) [0..<m]"
    by (intro map_cong refl) (simp add: Matrix_of_dims_def)
  finally show ?thesis
    using a0 b0 A B by (simp add: operator_mul_def)
qed

subsection \<open>The loops of the original implementation\<close>

lemma operator_mul_orig_loop_k_result:
  fixes mat1 mat2 :: "'a::{plus,times} Matrix"
  assumes M: "m_matrix mat1 \<noteq> []" "length (m_matrix mat1 ! 0) = n"
    "i < length (m_matrix mat1)" "length (m_matrix mat1 ! i) = n"
    "n \<le> length (m_matrix mat2)" "\<forall>t<n. j < length (m_matrix mat2 ! t)"
  shows "i < length res \<Longrightarrow> j < length (res ! i) \<Longrightarrow>
    operator_mul_orig_loop_k mat1 mat2 i j k res =
      Inr (res[i := (res ! i)[j := cell_acc (m_matrix mat1) (m_matrix mat2) i j (res ! i ! j) [k..<n]]])"
proof (induction "n - k" arbitrary: k res)
  case 0
  then have "n \<le> k" by simp
  then show ?case
    using M by (subst operator_mul_orig_loop_k.simps) (simp add: at_vec_def)
next
  case (Suc d)
  then have k: "k < n" by simp
  let ?v = "res ! i ! j + m_matrix mat1 ! i ! k * m_matrix mat2 ! k ! j"
  let ?res1 = "res[i := (res ! i)[j := ?v]]"
  have rd: "at2 res i j = Inr (res ! i ! j)"
    "at2 (m_matrix mat1) i k = Inr (m_matrix mat1 ! i ! k)"
    "at2 (m_matrix mat2) k j = Inr (m_matrix mat2 ! k ! j)"
    using M k Suc.prems by (simp_all add: at2_def at_vec_def)
  have wr: "set2 res i j ?v = Inr ?res1"
    using Suc.prems by (simp add: set2_def at_vec_def)
  have step: "operator_mul_orig_loop_k mat1 mat2 i j k res
      = operator_mul_orig_loop_k mat1 mat2 i j (k + 1) ?res1"
    using M k rd wr by (subst operator_mul_orig_loop_k.simps) (simp add: at_vec_def)
  have "d = n - (k + 1)" using Suc.hyps(2) by simp
  moreover have "i < length ?res1" using Suc.prems by simp
  moreover have "j < length (?res1 ! i)" using Suc.prems by simp
  ultimately have "operator_mul_orig_loop_k mat1 mat2 i j (k + 1) ?res1 =
      Inr (?res1[i := (?res1 ! i)[j := cell_acc (m_matrix mat1) (m_matrix mat2) i j (?res1 ! i ! j) [k + 1..<n]]])"
    by (rule Suc.hyps(1))
  also have "?res1[i := (?res1 ! i)[j := cell_acc (m_matrix mat1) (m_matrix mat2) i j (?res1 ! i ! j) [k + 1..<n]]]
      = res[i := (res ! i)[j := cell_acc (m_matrix mat1) (m_matrix mat2) i j (res ! i ! j) [k..<n]]]"
    using Suc.prems k by (simp add: cell_acc_step)
  finally show ?case using step by simp
qed

lemma operator_mul_orig_loop_j_result:
  fixes mat1 mat2 :: "'a::{plus,times} Matrix"
  assumes M: "m_matrix mat1 \<noteq> []" "length (m_matrix mat1 ! 0) = n"
    "i < length (m_matrix mat1)" "length (m_matrix mat1 ! i) = n"
    "n \<le> length (m_matrix mat2)" "\<forall>t<n. p \<le> length (m_matrix mat2 ! t)"
  shows "i < length res \<Longrightarrow> length (res ! i) = p \<Longrightarrow>
    operator_mul_orig_loop_j mat1 mat2 i j res =
      Inr (res[i := map (\<lambda>j'. if j \<le> j'
                then cell_acc (m_matrix mat1) (m_matrix mat2) i j' (res ! i ! j') [0..<n]
                else res ! i ! j') [0..<p]])"
proof (induction "p - j" arbitrary: j res)
  case 0
  then have "p \<le> j" by simp
  then have "map (\<lambda>j'. if j \<le> j'
                then cell_acc (m_matrix mat1) (m_matrix mat2) i j' (res ! i ! j') [0..<n]
                else res ! i ! j') [0..<p] = map (\<lambda>j'. res ! i ! j') [0..<p]"
    by (intro map_cong) auto
  also have "\<dots> = res ! i" using "0.prems"(2) by (rule map_nth_upt)
  finally show ?case
    using "0.prems" \<open>p \<le> j\<close> by (subst operator_mul_orig_loop_j.simps) (simp add: at_vec_def)
next
  case (Suc d)
  then have j: "j < p" by simp
  let ?res1 = "res[i := (res ! i)[j := cell_acc (m_matrix mat1) (m_matrix mat2) i j (res ! i ! j) [0..<n]]]"
  have "\<forall>t<n. j < length (m_matrix mat2 ! t)" using M(6) j by auto
  with M(1-5) have inner: "operator_mul_orig_loop_k mat1 mat2 i j 0 res = Inr ?res1"
    using Suc.prems j by (intro operator_mul_orig_loop_k_result) simp_all
  have step: "operator_mul_orig_loop_j mat1 mat2 i j res = operator_mul_orig_loop_j mat1 mat2 i (j + 1) ?res1"
    using Suc.prems j inner by (subst operator_mul_orig_loop_j.simps) (simp add: at_vec_def)
  have "d = p - (j + 1)" using Suc.hyps(2) by simp
  moreover have "i < length ?res1" using Suc.prems by simp
  moreover have "length (?res1 ! i) = p" using Suc.prems by simp
  ultimately have "operator_mul_orig_loop_j mat1 mat2 i (j + 1) ?res1 =
      Inr (?res1[i := map (\<lambda>j'. if j + 1 \<le> j'
                then cell_acc (m_matrix mat1) (m_matrix mat2) i j' (?res1 ! i ! j') [0..<n]
                else ?res1 ! i ! j') [0..<p]])"
    by (rule Suc.hyps(1))
  also have "map (\<lambda>j'. if j + 1 \<le> j'
                then cell_acc (m_matrix mat1) (m_matrix mat2) i j' (?res1 ! i ! j') [0..<n]
                else ?res1 ! i ! j') [0..<p]
      = map (\<lambda>j'. if j \<le> j'
                then cell_acc (m_matrix mat1) (m_matrix mat2) i j' (res ! i ! j') [0..<n]
                else res ! i ! j') [0..<p]"
    using Suc.prems by (intro map_cong) (auto simp: nth_list_update dest: between_Suc)
  finally show ?case using step by simp
qed

lemma operator_mul_orig_loop_i_result:
  fixes mat1 mat2 :: "'a::{plus,times} Matrix"
  assumes M: "length (m_matrix mat1) = m" "\<forall>i<m. length (m_matrix mat1 ! i) = n"
    "n \<le> length (m_matrix mat2)" "\<forall>t<n. p \<le> length (m_matrix mat2 ! t)"
  shows "length res = m \<Longrightarrow> (\<forall>i<m. length (res ! i) = p) \<Longrightarrow>
    operator_mul_orig_loop_i mat1 mat2 i res =
      Inr (map (\<lambda>i'. if i \<le> i'
                 then map (\<lambda>j. cell_acc (m_matrix mat1) (m_matrix mat2) i' j (res ! i' ! j) [0..<n])
                        [0..<p]
                 else res ! i') [0..<m])"
proof (induction "m - i" arbitrary: i res)
  case 0
  then have "m \<le> i" by simp
  then have "map (\<lambda>i'. if i \<le> i'
                 then map (\<lambda>j. cell_acc (m_matrix mat1) (m_matrix mat2) i' j (res ! i' ! j) [0..<n])
                        [0..<p]
                 else res ! i') [0..<m] = map (\<lambda>i'. res ! i') [0..<m]"
    by (intro map_cong) auto
  also have "\<dots> = res" using "0.prems"(1) by (rule map_nth_upt)
  finally show ?case
    using "0.prems" \<open>m \<le> i\<close> by (subst operator_mul_orig_loop_i.simps) simp
next
  case (Suc d)
  then have i: "i < m" by simp
  let ?row = "map (\<lambda>j. cell_acc (m_matrix mat1) (m_matrix mat2) i j (res ! i ! j) [0..<n]) [0..<p]"
  let ?res1 = "res[i := ?row]"
  have ne: "m_matrix mat1 \<noteq> []" using M i by auto
  have "length (m_matrix mat1 ! 0) = n" using M i by simp
  with ne have "operator_mul_orig_loop_j mat1 mat2 i 0 res =
      Inr (res[i := map (\<lambda>j'. if 0 \<le> j'
                then cell_acc (m_matrix mat1) (m_matrix mat2) i j' (res ! i ! j') [0..<n]
                else res ! i ! j') [0..<p]])"
    using M i Suc.prems by (intro operator_mul_orig_loop_j_result) simp_all
  then have inner: "operator_mul_orig_loop_j mat1 mat2 i 0 res = Inr ?res1" by simp
  have step: "operator_mul_orig_loop_i mat1 mat2 i res = operator_mul_orig_loop_i mat1 mat2 (i + 1) ?res1"
    using Suc.prems i inner by (subst operator_mul_orig_loop_i.simps) simp
  have "d = m - (i + 1)" using Suc.hyps(2) by simp
  moreover have "length ?res1 = m" using Suc.prems by simp
  moreover have "\<forall>i'<m. length (?res1 ! i') = p"
    using Suc.prems i by (auto simp: nth_list_update)
  ultimately have "operator_mul_orig_loop_i mat1 mat2 (i + 1) ?res1 =
      Inr (map (\<lambda>i'. if i + 1 \<le> i'
                 then map (\<lambda>j. cell_acc (m_matrix mat1) (m_matrix mat2) i' j (?res1 ! i' ! j) [0..<n])
                        [0..<p]
                 else ?res1 ! i') [0..<m])"
    by (rule Suc.hyps(1))
  also have "map (\<lambda>i'. if i + 1 \<le> i'
                 then map (\<lambda>j. cell_acc (m_matrix mat1) (m_matrix mat2) i' j (?res1 ! i' ! j) [0..<n])
                        [0..<p]
                 else ?res1 ! i') [0..<m]
      = map (\<lambda>i'. if i \<le> i'
                 then map (\<lambda>j. cell_acc (m_matrix mat1) (m_matrix mat2) i' j (res ! i' ! j) [0..<n])
                        [0..<p]
                 else res ! i') [0..<m]"
  proof (intro map_cong refl)
    fix i' assume "i' \<in> set [0..<m]"
    then have b: "i' < length res" "i < length res" using Suc.prems i by simp_all
    show "(if i + 1 \<le> i'
             then map (\<lambda>j. cell_acc (m_matrix mat1) (m_matrix mat2) i' j (?res1 ! i' ! j) [0..<n])
                    [0..<p]
             else ?res1 ! i')
        = (if i \<le> i'
             then map (\<lambda>j. cell_acc (m_matrix mat1) (m_matrix mat2) i' j (res ! i' ! j) [0..<n])
                    [0..<p]
             else res ! i')"
    proof (cases "i' = i")
      case True
      with b show ?thesis by simp
    next
      case False
      with b show ?thesis by (auto simp: nth_list_update)
    qed
  qed
  finally show ?case using step by simp
qed

lemma operator_mul_orig_result:
  fixes mat1 mat2 :: "'a::{zero,plus,times} Matrix"
  assumes "shape mat1 m n" "shape mat2 n p" "1 \<le> m" "1 \<le> n"
  shows "operator_mul_orig mat1 mat2 =
    Inr \<lparr>m_matrix = map (\<lambda>i. map (\<lambda>j. cell_acc (m_matrix mat1) (m_matrix mat2) i j 0 [0..<n])
                              [0..<p]) [0..<m]\<rparr>"
proof -
  from shape_nth[OF assms(1)] have A: "length (m_matrix mat1) = m" "\<forall>i<m. length (m_matrix mat1 ! i) = n"
    by simp_all
  from shape_nth[OF assms(2)] have B: "length (m_matrix mat2) = n" "\<forall>t<n. length (m_matrix mat2 ! t) = p"
    by simp_all
  from A assms(3) have a0: "at_vec (m_matrix mat1) 0 = Inr (m_matrix mat1 ! 0)" "length (m_matrix mat1 ! 0) = n"
    by (simp_all add: at_vec_def)
  from B assms(4) have b0: "at_vec (m_matrix mat2) 0 = Inr (m_matrix mat2 ! 0)" "length (m_matrix mat2 ! 0) = p"
    by (simp_all add: at_vec_def)
  let ?res0 = "m_matrix (Matrix_of_dims m p (0 :: 'a))"
  have r0: "length ?res0 = m" "\<forall>i<m. length (?res0 ! i) = p"
    by (simp_all add: Matrix_of_dims_def)
  have B': "n \<le> length (m_matrix mat2)" "\<forall>t<n. p \<le> length (m_matrix mat2 ! t)"
    using B by simp_all
  from A B' r0 have "operator_mul_orig_loop_i mat1 mat2 0 ?res0 =
      Inr (map (\<lambda>i'. if 0 \<le> i'
                 then map (\<lambda>j. cell_acc (m_matrix mat1) (m_matrix mat2) i' j (?res0 ! i' ! j) [0..<n])
                        [0..<p]
                 else ?res0 ! i') [0..<m])"
    by (rule operator_mul_orig_loop_i_result)
  also have "map (\<lambda>i'. if 0 \<le> i'
                 then map (\<lambda>j. cell_acc (m_matrix mat1) (m_matrix mat2) i' j (?res0 ! i' ! j) [0..<n])
                        [0..<p]
                 else ?res0 ! i') [0..<m]
     = map (\<lambda>i. map (\<lambda>j. cell_acc (m_matrix mat1) (m_matrix mat2) i j 0 [0..<n]) [0..<p]) [0..<m]"
    by (intro map_cong refl) (simp add: Matrix_of_dims_def)
  finally show ?thesis
    using a0 b0 A B by (simp add: operator_mul_orig_def)
qed

section \<open>Multiplication: the product\<close>

text \<open>
  Claim C1. For \<open>lhs\<close> of shape \<open>(m, n)\<close> and \<open>rhs\<close> of shape \<open>(n, k)\<close>, with at least one row in
  each (\<open>m \<ge> 1\<close>, \<open>n \<ge> 1\<close>), \<^verbatim>\<open>operator*\<close> returns a matrix of shape \<open>(m, k)\<close> whose element
  \<open>(i, j)\<close> is the sum of \<open>lhs[i][t] * rhs[t][j]\<close> for \<open>t = 0, \<dots>, n - 1\<close>, added in this order
  with the addition of the element type, starting from its \<open>0\<close>. Nothing but \<open>0\<close>, \<open>+\<close> and \<open>*\<close>
  is asked of the element type: the equation holds without associativity or commutativity.
\<close>

theorem operator_mul_computes_product:
  fixes lhs rhs :: "'a::{zero,plus,times} Matrix"
  assumes "shape lhs m n" "shape rhs n k" "1 \<le> m" "1 \<le> n"
  shows "\<exists>result. operator_mul lhs rhs = Inr result \<and> shape result m k \<and>
    (\<forall>i<m. \<forall>j<k. m_matrix result ! i ! j =
       foldl (\<lambda>acc t. acc + m_matrix lhs ! i ! t * m_matrix rhs ! t ! j) 0 [0..<n])"
  using operator_mul_result[OF assms]
  by (simp add: shape_def list_all_length cell_acc_def)

text \<open>The specification's example: \<^verbatim>\<open>[[1,2],[3,4]] * [[5,6],[7,8]] = [[19,22],[43,50]]\<close>.\<close>

theorem operator_mul_computes_product_witness:
  "shape \<lparr>m_matrix = [[1, 2], [3, 4 :: int]]\<rparr> 2 2 \<and> shape \<lparr>m_matrix = [[5, 6], [7, 8 :: int]]\<rparr> 2 2 \<and>
   (\<exists>result. operator_mul \<lparr>m_matrix = [[1, 2], [3, 4 :: int]]\<rparr> \<lparr>m_matrix = [[5, 6], [7, 8]]\<rparr> = Inr result \<and>
      shape result 2 2 \<and>
      m_matrix result ! 0 ! 0 = 19 \<and> m_matrix result ! 0 ! 1 = 22 \<and>
      m_matrix result ! 1 ! 0 = 43 \<and> m_matrix result ! 1 ! 1 = 50)"
proof -
  have s: "shape \<lparr>m_matrix = [[1, 2], [3, 4 :: int]]\<rparr> 2 2" "shape \<lparr>m_matrix = [[5, 6], [7, 8 :: int]]\<rparr> 2 2"
    by (simp_all add: shape_def)
  from operator_mul_computes_product[OF s] obtain result where
    r: "operator_mul \<lparr>m_matrix = [[1, 2], [3, 4 :: int]]\<rparr> \<lparr>m_matrix = [[5, 6], [7, 8]]\<rparr> = Inr result"
       "shape result 2 2"
       "\<forall>i<2. \<forall>j<2. m_matrix result ! i ! j =
          foldl (\<lambda>acc t. acc + m_matrix \<lparr>m_matrix = [[1, 2], [3, 4 :: int]]\<rparr> ! i ! t
                               * m_matrix \<lparr>m_matrix = [[5, 6], [7, 8 :: int]]\<rparr> ! t ! j) 0 [0..<2]"
    by auto
  have u: "[0..<2] = [0, 1]" by (simp add: upt_conv_Cons)
  from r(3)[rule_format, of 0 0] r(3)[rule_format, of 0 1] r(3)[rule_format, of 1 0]
    r(3)[rule_format, of 1 1]
  have "m_matrix result ! 0 ! 0 = 19 \<and> m_matrix result ! 0 ! 1 = 22 \<and>
      m_matrix result ! 1 ! 0 = 43 \<and> m_matrix result ! 1 ! 1 = 50"
    by (simp add: u)
  with r(1,2) s show ?thesis by blast
qed

text \<open>
  Where the addition is that of a commutative monoid, the accumulation of a cell is the sum
  over \<open>t < n\<close>.
\<close>

lemma foldl_add_sum:
  fixes f :: "nat \<Rightarrow> 'a::comm_monoid_add"
  shows "foldl (\<lambda>acc t. acc + f t) 0 [0..<n] = (\<Sum>t<n. f t)"
  by (induction n) (simp_all add: add.commute)

text \<open>
  Claim C7. On every compatible pair of matrices (shapes \<open>(m, n)\<close> and \<open>(n, k)\<close>, \<open>m \<ge> 1\<close>,
  \<open>n \<ge> 1\<close>) the implemented loop order (rows, inner dimension, columns) and the original
  implementation kept in the source (rows, columns, inner dimension, the whole dot product of
  a cell at once) return the same matrix; both do return one.
\<close>

theorem operator_mul_refines_original:
  fixes mat1 mat2 :: "'a::{zero,plus,times} Matrix"
  assumes "shape mat1 m n" "shape mat2 n k" "1 \<le> m" "1 \<le> n"
  shows "operator_mul mat1 mat2 = operator_mul_orig mat1 mat2 \<and>
         (\<exists>result. operator_mul mat1 mat2 = Inr result)"
  using operator_mul_result[OF assms] operator_mul_orig_result[OF assms] by simp

text \<open>
  At the specification's example, \<^verbatim>\<open>[[1,2],[3,4]] * [[5,6],[7,8]]\<close>, both implementations
  return \<^verbatim>\<open>[[19,22],[43,50]]\<close>.
\<close>

theorem operator_mul_refines_original_witness:
  "shape \<lparr>m_matrix = [[1, 2], [3, 4 :: int]]\<rparr> 2 2 \<and> shape \<lparr>m_matrix = [[5, 6], [7, 8 :: int]]\<rparr> 2 2 \<and>
   operator_mul \<lparr>m_matrix = [[1, 2], [3, 4 :: int]]\<rparr> \<lparr>m_matrix = [[5, 6], [7, 8]]\<rparr>
     = operator_mul_orig \<lparr>m_matrix = [[1, 2], [3, 4 :: int]]\<rparr> \<lparr>m_matrix = [[5, 6], [7, 8]]\<rparr> \<and>
   operator_mul_orig \<lparr>m_matrix = [[1, 2], [3, 4 :: int]]\<rparr> \<lparr>m_matrix = [[5, 6], [7, 8]]\<rparr>
     = Inr \<lparr>m_matrix = [[19, 22], [43, 50]]\<rparr>"
proof -
  have s: "shape \<lparr>m_matrix = [[1, 2], [3, 4 :: int]]\<rparr> 2 2" "shape \<lparr>m_matrix = [[5, 6], [7, 8 :: int]]\<rparr> 2 2"
    by (simp_all add: shape_def)
  have "operator_mul_orig \<lparr>m_matrix = [[1, 2], [3, 4 :: int]]\<rparr> \<lparr>m_matrix = [[5, 6], [7, 8]]\<rparr>
     = Inr \<lparr>m_matrix = [[19, 22], [43, 50]]\<rparr>"
    using operator_mul_orig_result[OF s] by (simp add: cell_acc_def upt_conv_Cons)
  with operator_mul_refines_original[OF s] s show ?thesis by simp
qed

section \<open>Equality and transposition\<close>

lemma vector_eq_eq: "vector_eq (=) x y \<longleftrightarrow> x = y"
  unfolding vector_eq_def list_all_iff list_eq_iff_zip_eq by blast

lemma operator_eq_eq: "operator_eq m1 m2 \<longleftrightarrow> m_matrix m1 = m_matrix m2"
proof -
  have "vector_eq (=) = ((=) :: 'a list \<Rightarrow> 'a list \<Rightarrow> bool)"
    by (intro ext) (rule vector_eq_eq)
  then show ?thesis by (simp add: operator_eq_def vector_eq_eq)
qed

text \<open>
  Claim C6. \<^verbatim>\<open>operator==\<close> is true exactly when the two grids have the same number of rows,
  corresponding rows have the same length, and corresponding elements are equal. It is a
  total function to \<open>bool\<close>: it has no error. When both matrices have a size and the sizes
  differ it is false. \<^verbatim>\<open>isSame\<close> returns the same boolean.
\<close>

theorem operator_eq_shape_and_elements:
  "(operator_eq m1 m2 \<longleftrightarrow>
      length (m_matrix m1) = length (m_matrix m2) \<and>
      (\<forall>i<length (m_matrix m1).
         length (m_matrix m1 ! i) = length (m_matrix m2 ! i) \<and>
         (\<forall>j<length (m_matrix m1 ! i). m_matrix m1 ! i ! j = m_matrix m2 ! i ! j))) \<and>
   (\<forall>s1 s2. Matrix_size m1 = Inr s1 \<and> Matrix_size m2 = Inr s2 \<and> s1 \<noteq> s2 \<longrightarrow> \<not> operator_eq m1 m2) \<and>
   isSame m1 m2 = operator_eq m1 m2"
proof (intro conjI allI impI)
  have "m_matrix m1 = m_matrix m2 \<longleftrightarrow>
      length (m_matrix m1) = length (m_matrix m2) \<and>
      (\<forall>i<length (m_matrix m1). m_matrix m1 ! i = m_matrix m2 ! i)"
    by (rule list_eq_iff_nth_eq)
  also have "\<dots> \<longleftrightarrow> length (m_matrix m1) = length (m_matrix m2) \<and>
      (\<forall>i<length (m_matrix m1).
         length (m_matrix m1 ! i) = length (m_matrix m2 ! i) \<and>
         (\<forall>j<length (m_matrix m1 ! i). m_matrix m1 ! i ! j = m_matrix m2 ! i ! j))"
    by (simp only: list_eq_iff_nth_eq[of "m_matrix m1 ! i" "m_matrix m2 ! i" for i])
  finally show "operator_eq m1 m2 \<longleftrightarrow>
      length (m_matrix m1) = length (m_matrix m2) \<and>
      (\<forall>i<length (m_matrix m1).
         length (m_matrix m1 ! i) = length (m_matrix m2 ! i) \<and>
         (\<forall>j<length (m_matrix m1 ! i). m_matrix m1 ! i ! j = m_matrix m2 ! i ! j))"
    by (simp only: operator_eq_eq)
next
  fix s1 s2
  assume a: "Matrix_size m1 = Inr s1 \<and> Matrix_size m2 = Inr s2 \<and> s1 \<noteq> s2"
  show "\<not> operator_eq m1 m2"
  proof
    assume "operator_eq m1 m2"
    then have "m_matrix m1 = m_matrix m2" by (simp only: operator_eq_eq)
    then have "Matrix_size m1 = Matrix_size m2" by (simp add: Matrix_size_def split: sum.splits)
    with a show False by auto
  qed
next
  show "isSame m1 m2 = operator_eq m1 m2" by (simp add: isSame_def)
qed

text \<open>The matrices \<^verbatim>\<open>A\<close> and \<^verbatim>\<open>C\<close> of the example in the comment of \<^verbatim>\<open>isSame\<close>.\<close>

theorem operator_eq_shape_and_elements_witness:
  "operator_eq \<lparr>m_matrix = [[1, 2, 3], [4, 5, 6 :: int]]\<rparr> \<lparr>m_matrix = [[1, 2, 3], [4, 5, 6]]\<rparr> \<and>
   isSame \<lparr>m_matrix = [[1, 2, 3], [4, 5, 6 :: int]]\<rparr> \<lparr>m_matrix = [[1, 2, 3], [4, 5, 6]]\<rparr> \<and>
   Matrix_size \<lparr>m_matrix = [[1, 2, 3], [4, 5, 6 :: int]]\<rparr> = Inr (2, 3) \<and>
   Matrix_size \<lparr>m_matrix = [[1, 2, 3 :: int]]\<rparr> = Inr (1, 3) \<and>
   \<not> operator_eq \<lparr>m_matrix = [[1, 2, 3], [4, 5, 6 :: int]]\<rparr> \<lparr>m_matrix = [[1, 2, 3]]\<rparr> \<and>
   \<not> isSame \<lparr>m_matrix = [[1, 2, 3], [4, 5, 6 :: int]]\<rparr> \<lparr>m_matrix = [[1, 2, 3]]\<rparr>"
proof -
  let ?A = "\<lparr>m_matrix = [[1, 2, 3], [4, 5, 6 :: int]]\<rparr>"
  let ?C = "\<lparr>m_matrix = [[1, 2, 3 :: int]]\<rparr>"
  have sz: "Matrix_size ?A = Inr (2, 3)" "Matrix_size ?C = Inr (1, 3)"
    by (simp_all add: Matrix_size_def at_vec_def)
  note AA = operator_eq_shape_and_elements[of ?A ?A]
  note AC = operator_eq_shape_and_elements[of ?A ?C]
  from AA[THEN conjunct1] have 1: "operator_eq ?A ?A" by simp
  with AA[THEN conjunct2, THEN conjunct2] have 2: "isSame ?A ?A" by simp
  from AC[THEN conjunct2, THEN conjunct1, rule_format, of "(2, 3)" "(1, 3)"] sz
  have 3: "\<not> operator_eq ?A ?C" by simp
  with AC[THEN conjunct2, THEN conjunct2] have 4: "\<not> isSame ?A ?C" by simp
  from 1 2 3 4 sz show ?thesis by blast
qed

text \<open>
  Claim C5. For a matrix of shape \<open>(r, c)\<close> with at least one row, \<^verbatim>\<open>transpose()\<close> returns a
  matrix of shape \<open>(c, r)\<close> with \<open>result[j][i] = m[i][j]\<close>, and leaves the receiver as it was.
  When \<open>c \<ge> 1\<close>, \<^verbatim>\<open>size()\<close> of the result is \<open>(c, r)\<close>.
\<close>

theorem Matrix_transpose_swaps:
  fixes m :: "'a::zero Matrix"
  assumes "shape m r c" "1 \<le> r"
  shows "\<exists>result. Matrix_transpose m = Inr (m, result) \<and> shape result c r \<and>
    (\<forall>i<r. \<forall>j<c. m_matrix result ! j ! i = m_matrix m ! i ! j) \<and>
    (1 \<le> c \<longrightarrow> Matrix_size result = Inr (c, r))"
  using Matrix_transpose_result[OF assms]
  by (auto simp: shape_def list_all_length Matrix_size_def at_vec_def)

text \<open>The specification's example: the transpose of \<^verbatim>\<open>[[1,2,3],[4,5,6]]\<close> is \<^verbatim>\<open>[[1,4],[2,5],[3,6]]\<close>.\<close>

theorem Matrix_transpose_swaps_witness:
  "shape \<lparr>m_matrix = [[1, 2, 3], [4, 5, 6 :: int]]\<rparr> 2 3 \<and>
   Matrix_transpose \<lparr>m_matrix = [[1, 2, 3], [4, 5, 6 :: int]]\<rparr> =
     Inr (\<lparr>m_matrix = [[1, 2, 3], [4, 5, 6]]\<rparr>, \<lparr>m_matrix = [[1, 4], [2, 5], [3, 6]]\<rparr>)"
proof -
  let ?B = "\<lparr>m_matrix = [[1, 2, 3], [4, 5, 6 :: int]]\<rparr>"
  have s: "shape ?B 2 3" by (simp add: shape_def)
  from Matrix_transpose_swaps[OF s] obtain result where
    r: "Matrix_transpose ?B = Inr (?B, result)" "shape result 3 2"
       "\<forall>i<2. \<forall>j<3. m_matrix result ! j ! i = m_matrix ?B ! i ! j"
    by auto
  have "m_matrix result = [[1, 4], [2, 5], [3, 6]]"
  proof (rule nth_equalityI)
    from r(2) show "length (m_matrix result) = length [[1, 4], [2, 5], [3, 6 :: int]]"
      by (simp add: shape_def)
  next
    fix j assume "j < length (m_matrix result)"
    with r(2) have j: "j < 3" by (simp add: shape_def)
    with r(2) have l: "length (m_matrix result ! j) = 2" by (simp add: shape_def list_all_length)
    from j r(3) have "m_matrix result ! j ! 0 = m_matrix ?B ! 0 ! j"
      "m_matrix result ! j ! 1 = m_matrix ?B ! 1 ! j" by simp_all
    with l have "m_matrix result ! j = [m_matrix ?B ! 0 ! j, m_matrix ?B ! 1 ! j]"
      by (cases "m_matrix result ! j"; cases "tl (m_matrix result ! j)") auto
    with j show "m_matrix result ! j = [[1, 4], [2, 5], [3, 6]] ! j"
      by (auto simp: less_Suc_eq numeral_3_eq_3)
  qed
  then have "result = \<lparr>m_matrix = [[1, 4], [2, 5], [3, 6]]\<rparr>" by (cases result) simp
  with r(1) s show ?thesis by simp
qed

section \<open>Multiplication by the identity\<close>

lemma cell_acc_identity_laws:
  fixes A :: "'a::{zero,one,plus,times} list list"
  assumes laws: "\<forall>t<n. identity_laws (A ! i ! t)" and z: "(0 :: 'a) + 0 = 0" and j: "j < n"
  shows "k \<le> n \<Longrightarrow> cell_acc A (identity_grid n) i j 0 [0..<k] = (if j < k then A ! i ! j else 0)"
proof (induction k)
  case 0
  show ?case by simp
next
  case (Suc k)
  then have k: "k < n" by simp
  from Suc have ih: "cell_acc A (identity_grid n) i j 0 [0..<k] = (if j < k then A ! i ! j else 0)"
    by simp
  have unfold: "cell_acc A (identity_grid n) i j 0 [0..<Suc k]
      = cell_acc A (identity_grid n) i j 0 [0..<k] + A ! i ! k * identity_grid n ! k ! j"
    by (simp add: cell_acc_def)
  have entry: "(identity_grid n :: 'a list list) ! k ! j = (if k = j then 1 else 0)"
    using k j by (simp add: identity_grid_def)
  from laws k have lk: "A ! i ! k * 0 = 0" "A ! i ! k * 1 = A ! i ! k" "0 + A ! i ! k = A ! i ! k"
    by (simp_all add: identity_laws_def)
  from laws j have lj: "A ! i ! j + 0 = A ! i ! j"
    by (simp add: identity_laws_def)
  show ?case
  proof (cases "k = j")
    case True
    with ih unfold entry lk show ?thesis by simp
  next
    case False
    show ?thesis
    proof (cases "j < k")
      case True
      with False ih unfold entry lk lj show ?thesis by simp
    next
      case nlt: False
      with False have "\<not> j < Suc k" by simp
      with False nlt ih unfold entry lk z show ?thesis by simp
    qed
  qed
qed

lemma operator_mul_identity_result:
  fixes m :: "'a::{zero,one,plus,times} Matrix"
  assumes "shape m r n" "1 \<le> r" "1 \<le> n"
    and laws: "list_all (list_all identity_laws) (m_matrix m)" and z: "(0 :: 'a) + 0 = 0"
  shows "operator_mul m \<lparr>m_matrix = identity_grid n\<rparr> = Inr m"
proof -
  from shape_nth[OF assms(1)] have M: "length (m_matrix m) = r" "\<forall>i<r. length (m_matrix m ! i) = n"
    by simp_all
  have sid: "shape \<lparr>m_matrix = (identity_grid n :: 'a list list)\<rparr> n n"
    by (simp add: shape_def identity_grid_def list_all_iff)
  have "operator_mul m \<lparr>m_matrix = identity_grid n\<rparr> =
    Inr \<lparr>m_matrix = map (\<lambda>i. map (\<lambda>j. cell_acc (m_matrix m) (m_matrix \<lparr>m_matrix = identity_grid n :: 'a list list\<rparr>) i j 0 [0..<n])
                              [0..<n]) [0..<r]\<rparr>"
    using assms(1) sid assms(2,3) by (rule operator_mul_result)
  also have "map (\<lambda>i. map (\<lambda>j. cell_acc (m_matrix m) (m_matrix \<lparr>m_matrix = identity_grid n :: 'a list list\<rparr>) i j 0 [0..<n])
                              [0..<n]) [0..<r]
      = map (\<lambda>i. m_matrix m ! i) [0..<r]"
  proof (intro map_cong refl)
    fix i assume "i \<in> set [0..<r]"
    then have i: "i < r" by simp
    then have len: "length (m_matrix m ! i) = n" using M by simp
    from laws i M(1) have "list_all identity_laws (m_matrix m ! i)"
      by (simp add: list_all_length)
    with len have li: "\<forall>t<n. identity_laws (m_matrix m ! i ! t)"
      by (simp add: list_all_length)
    from len have "map (\<lambda>j. m_matrix m ! i ! j) [0..<n] = m_matrix m ! i" by (rule map_nth_upt)
    moreover have "map (\<lambda>j. cell_acc (m_matrix m) (m_matrix \<lparr>m_matrix = identity_grid n :: 'a list list\<rparr>) i j 0 [0..<n]) [0..<n]
        = map (\<lambda>j. m_matrix m ! i ! j) [0..<n]"
    proof (intro map_cong refl)
      fix j assume "j \<in> set [0..<n]"
      then have "j < n" by simp
      from cell_acc_identity_laws[OF li z this, of n] this
      show "cell_acc (m_matrix m) (m_matrix \<lparr>m_matrix = identity_grid n :: 'a list list\<rparr>) i j 0 [0..<n]
          = m_matrix m ! i ! j" by simp
    qed
    ultimately show "map (\<lambda>j. cell_acc (m_matrix m) (m_matrix \<lparr>m_matrix = identity_grid n :: 'a list list\<rparr>) i j 0 [0..<n]) [0..<n]
        = m_matrix m ! i" by simp
  qed
  also have "\<dots> = m_matrix m" using M(1) by (rule map_nth_upt)
  finally show ?thesis by simp
qed

lemma identity_laws_semiring: "identity_laws (x :: 'a::semiring_1)"
  by (simp add: identity_laws_def)

lemma Matrix_of_nested_identity_grid:
  "Matrix_of_nested (identity_grid n :: 'a::{zero,one} list list) = Inr \<lparr>m_matrix = identity_grid n\<rparr>"
proof -
  have "\<forall>i j. i < length (identity_grid n :: 'a list list) \<and> j < length (identity_grid n :: 'a list list)
      \<longrightarrow> length (identity_grid n ! i :: 'a list) = length (identity_grid n ! j :: 'a list)"
    by (simp add: identity_grid_def)
  then show ?thesis
    by (simp only: Matrix_of_nested_Inr simp_thms)
qed

text \<open>
  Claim C8, as stated for every matrix, fails where an element breaks a law: over the type
  with infinities, \<open>[[\<infinity>, 1]]\<close> times the \<open>2 \<times> 2\<close> identity is \<open>[[\<infinity>, NaN]]\<close>, because the cell
  \<open>(0, 1)\<close> accumulates \<open>\<infinity> * 0\<close>, and the product is not equal to the matrix.
\<close>

theorem operator_mul_identity_counterexample:
  "Matrix_of_nested (identity_grid 2) = Inr \<lparr>m_matrix = [[Fin 1, Fin 0], [Fin 0, Fin 1]]\<rparr> \<and>
   operator_mul \<lparr>m_matrix = [[PInf, Fin 1]]\<rparr> \<lparr>m_matrix = [[Fin 1, Fin 0], [Fin 0, Fin 1]]\<rparr>
     = Inr \<lparr>m_matrix = [[PInf, NaN]]\<rparr> \<and>
   \<not> operator_eq \<lparr>m_matrix = [[PInf, NaN]]\<rparr> \<lparr>m_matrix = [[PInf, Fin 1]]\<rparr> \<and>
   \<not> isSame \<lparr>m_matrix = [[PInf, NaN]]\<rparr> \<lparr>m_matrix = [[PInf, Fin 1]]\<rparr>"
proof -
  have g: "(identity_grid 2 :: ext_num list list) = [[Fin 1, Fin 0], [Fin 0, Fin 1]]"
    by (simp add: identity_grid_def upt_conv_Cons zero_ext_num_def one_ext_num_def)
  have 1: "Matrix_of_nested (identity_grid 2) = Inr \<lparr>m_matrix = [[Fin 1, Fin 0], [Fin 0, Fin 1]]\<rparr>"
    using Matrix_of_nested_identity_grid[of 2, where 'a = ext_num] by (simp add: g)
  have s: "shape \<lparr>m_matrix = [[PInf, Fin 1]]\<rparr> 1 2"
    "shape \<lparr>m_matrix = [[Fin 1, Fin 0], [Fin 0, Fin 1]]\<rparr> 2 2"
    by (simp_all add: shape_def)
  have 2: "operator_mul \<lparr>m_matrix = [[PInf, Fin 1]]\<rparr> \<lparr>m_matrix = [[Fin 1, Fin 0], [Fin 0, Fin 1]]\<rparr>
     = Inr \<lparr>m_matrix = [[PInf, NaN]]\<rparr>"
    using operator_mul_result[OF s]
    by (simp add: cell_acc_def upt_conv_Cons zero_ext_num_def plus_ext_num_def times_ext_num_def)
  have 3: "\<not> operator_eq \<lparr>m_matrix = [[PInf, NaN]]\<rparr> \<lparr>m_matrix = [[PInf, Fin 1]]\<rparr>"
    by (simp add: operator_eq_eq)
  then have 4: "\<not> isSame \<lparr>m_matrix = [[PInf, NaN]]\<rparr> \<lparr>m_matrix = [[PInf, Fin 1]]\<rparr>"
    by (simp add: isSame_def)
  from 1 2 3 4 show ?thesis by blast
qed

text \<open>
  Claim C8, amended. For a matrix \<open>m\<close> of shape \<open>(r, n)\<close> with \<open>r \<ge> 1\<close> and \<open>n \<ge> 1\<close> whose elements
  \<open>x\<close> all satisfy \<open>x * 0 = 0\<close>, \<open>x * 1 = x\<close>, \<open>0 + x = x\<close> and \<open>x + 0 = x\<close>, in an element type with
  \<open>0 + 0 = 0\<close>, the nested constructor accepts the \<open>n \<times> n\<close> identity grid, and \<open>m\<close> times that
  matrix is a matrix equal to \<open>m\<close> under \<^verbatim>\<open>operator==\<close> and \<^verbatim>\<open>isSame\<close>. Every element of a semiring
  with \<open>1\<close>, such as the integers, satisfies the laws (\<open>identity_laws_semiring\<close>).
\<close>

theorem operator_mul_identity:
  fixes m :: "'a::{zero,one,plus,times} Matrix"
  assumes "shape m r n" "1 \<le> r" "1 \<le> n"
    and "list_all (list_all identity_laws) (m_matrix m)" and "(0 :: 'a) + 0 = 0"
  shows "\<exists>idn result. Matrix_of_nested (identity_grid n) = Inr idn \<and>
           operator_mul m idn = Inr result \<and> operator_eq result m \<and> isSame result m"
proof -
  note Matrix_of_nested_identity_grid[of n, where 'a = 'a]
  moreover note operator_mul_identity_result[OF assms]
  moreover have "operator_eq m m" "isSame m m" by (simp_all add: isSame_def operator_eq_eq)
  ultimately show ?thesis by blast
qed

text \<open>At \<^verbatim>\<open>[[1,2],[3,4]]\<close> and the \<open>2 \<times> 2\<close> identity, over the integers.\<close>

theorem operator_mul_identity_witness:
  "shape \<lparr>m_matrix = [[1, 2], [3, 4 :: int]]\<rparr> 2 2 \<and>
   list_all (list_all identity_laws) [[1, 2], [3, 4 :: int]] \<and>
   identity_grid 2 = [[1, 0], [0, 1 :: int]] \<and>
   (\<exists>idn result. Matrix_of_nested (identity_grid 2) = Inr idn \<and>
       operator_mul \<lparr>m_matrix = [[1, 2], [3, 4 :: int]]\<rparr> idn = Inr result \<and>
       operator_eq result \<lparr>m_matrix = [[1, 2], [3, 4 :: int]]\<rparr> \<and>
       isSame result \<lparr>m_matrix = [[1, 2], [3, 4 :: int]]\<rparr>)"
proof -
  have s: "shape \<lparr>m_matrix = [[1, 2], [3, 4 :: int]]\<rparr> 2 2" by (simp add: shape_def)
  have l: "list_all (list_all identity_laws) (m_matrix \<lparr>m_matrix = [[1, 2], [3, 4 :: int]]\<rparr>)"
    by (simp add: identity_laws_def)
  have i: "identity_grid 2 = [[1, 0], [0, 1 :: int]]"
    by (simp add: identity_grid_def upt_conv_Cons)
  from operator_mul_identity[OF s _ _ l] s l i show ?thesis by simp
qed

text \<open>The finite values of the type with infinities satisfy the laws as well.\<close>

lemma operator_mul_identity_finite_ext_num:
  "operator_mul \<lparr>m_matrix = [[Fin 2, Fin (- 3)]]\<rparr> \<lparr>m_matrix = identity_grid 2\<rparr>
     = Inr \<lparr>m_matrix = [[Fin 2, Fin (- 3)]]\<rparr>"
proof -
  have s: "shape \<lparr>m_matrix = [[Fin 2, Fin (- 3)]]\<rparr> 1 2" by (simp add: shape_def)
  have l: "list_all (list_all identity_laws) (m_matrix \<lparr>m_matrix = [[Fin 2, Fin (- 3)]]\<rparr>)"
    by (simp add: identity_laws_def zero_ext_num_def one_ext_num_def plus_ext_num_def
          times_ext_num_def)
  have z: "(0 :: ext_num) + 0 = 0" by (simp add: zero_ext_num_def plus_ext_num_def)
  from operator_mul_identity_result[OF s _ _ l z] show ?thesis by simp
qed

section \<open>The unguarded reads of the first row\<close>

lemma min_shape_shape:
  "min_shape m \<Longrightarrow> shape m (length (m_matrix m)) (length (m_matrix m ! 0)) \<and>
     1 \<le> length (m_matrix m) \<and> 1 \<le> length (m_matrix m ! 0) \<and> m_matrix m \<noteq> []"
  by (cases "m_matrix m") (simp_all add: min_shape_def)

text \<open>
  Claim C10. \<^verbatim>\<open>size()\<close>, \<^verbatim>\<open>transpose()\<close> and \<^verbatim>\<open>operator*\<close> read \<^verbatim>\<open>m_matrix[0]\<close> with no guard:
  on a matrix without rows the first two, and \<^verbatim>\<open>operator*\<close> with it on the left, read out of
  range, and \<^verbatim>\<open>operator*\<close> with it on the right returns no matrix. On a matrix that satisfies
  the invariant (at least one row and one column, rows of one length) \<^verbatim>\<open>size()\<close> returns
  the pair of the row count and the column count, \<^verbatim>\<open>transpose()\<close> returns, and
  \<^verbatim>\<open>operator*\<close> on two such matrices never reads out of range. \<^verbatim>\<open>size()\<close> is \<open>(r, c)\<close> on
  every matrix of shape \<open>(r, c)\<close> with \<open>r \<ge> 1\<close>.
\<close>

theorem first_row_access:
  fixes m m2 :: "'a::{zero,plus,times} Matrix"
  shows
  "(m_matrix m = [] \<longrightarrow>
      Matrix_size m = Inl OutOfRange \<and> Matrix_transpose m = Inl OutOfRange \<and>
      operator_mul m m2 = Inl OutOfRange \<and> (\<forall>res. operator_mul m2 m \<noteq> Inr res)) \<and>
   (min_shape m \<longrightarrow>
      Matrix_size m = Inr (length (m_matrix m), length (m_matrix m ! 0)) \<and>
      (\<exists>res. Matrix_transpose m = Inr (m, res)) \<and>
      (min_shape m2 \<longrightarrow> operator_mul m m2 \<noteq> Inl OutOfRange)) \<and>
   (\<forall>r c. shape m r c \<and> 1 \<le> r \<longrightarrow> Matrix_size m = Inr (r, c))"
proof (intro conjI impI allI)
  assume e: "m_matrix m = []"
  then show "Matrix_size m = Inl OutOfRange" by (simp add: Matrix_size_def at_vec_def)
  from e show "Matrix_transpose m = Inl OutOfRange" by (simp add: Matrix_transpose_def at_vec_def)
  from e show "operator_mul m m2 = Inl OutOfRange" by (simp add: operator_mul_def at_vec_def)
  fix res
  from e show "operator_mul m2 m \<noteq> Inr res"
    by (simp add: operator_mul_def at_vec_def split: sum.splits)
next
  assume ms: "min_shape m"
  note s = min_shape_shape[OF ms]
  from s show "Matrix_size m = Inr (length (m_matrix m), length (m_matrix m ! 0))"
    by (auto simp: Matrix_size_def at_vec_def)
  from s have "shape m (length (m_matrix m)) (length (m_matrix m ! 0))" "1 \<le> length (m_matrix m)"
    by simp_all
  from Matrix_transpose_result[OF this]
  show "\<exists>res. Matrix_transpose m = Inr (m, res)" by blast
  assume ms2: "min_shape m2"
  note s2 = min_shape_shape[OF ms2]
  show "operator_mul m m2 \<noteq> Inl OutOfRange"
  proof (cases "length (m_matrix m ! 0) = length (m_matrix m2)")
    case False
    with s show ?thesis by (simp add: operator_mul_def at_vec_def)
  next
    case True
    with s s2 have "shape m (length (m_matrix m)) (length (m_matrix m2))"
      "shape m2 (length (m_matrix m2)) (length (m_matrix m2 ! 0))"
      "1 \<le> length (m_matrix m)" "1 \<le> length (m_matrix m2)" by simp_all
    from operator_mul_result[OF this] show ?thesis by simp
  qed
next
  fix r c
  assume "shape m r c \<and> 1 \<le> r"
  then show "Matrix_size m = Inr (r, c)"
    by (simp add: Matrix_size_def at_vec_def shape_def list_all_length)
qed

text \<open>At the matrix with no rows and at \<^verbatim>\<open>[[1,2,3],[4,5,6]]\<close>.\<close>

theorem first_row_access_witness:
  "Matrix_size \<lparr>m_matrix = ([] :: int list list)\<rparr> = Inl OutOfRange \<and>
   Matrix_transpose \<lparr>m_matrix = ([] :: int list list)\<rparr> = Inl OutOfRange \<and>
   operator_mul \<lparr>m_matrix = ([] :: int list list)\<rparr> \<lparr>m_matrix = [[1, 2, 3]]\<rparr> = Inl OutOfRange \<and>
   min_shape \<lparr>m_matrix = [[1, 2, 3], [4, 5, 6 :: int]]\<rparr> \<and>
   Matrix_size \<lparr>m_matrix = [[1, 2, 3], [4, 5, 6 :: int]]\<rparr> = Inr (2, 3) \<and>
   operator_mul \<lparr>m_matrix = [[1, 2, 3], [4, 5, 6 :: int]]\<rparr> \<lparr>m_matrix = [[1, 2, 3], [4, 5, 6]]\<rparr>
     \<noteq> Inl OutOfRange"
proof -
  let ?E = "\<lparr>m_matrix = ([] :: int list list)\<rparr>"
  let ?A = "\<lparr>m_matrix = [[1, 2, 3], [4, 5, 6 :: int]]\<rparr>"
  have ms: "min_shape ?A" by (simp add: min_shape_def shape_def)
  from first_row_access[of ?E "\<lparr>m_matrix = [[1, 2, 3 :: int]]\<rparr>", THEN conjunct1]
  have 1: "Matrix_size ?E = Inl OutOfRange \<and> Matrix_transpose ?E = Inl OutOfRange \<and>
      operator_mul ?E \<lparr>m_matrix = [[1, 2, 3]]\<rparr> = Inl OutOfRange" by simp
  from first_row_access[of ?A ?A, THEN conjunct2, THEN conjunct1] ms
  have 2: "Matrix_size ?A = Inr (2, 3) \<and> operator_mul ?A ?A \<noteq> Inl OutOfRange" by simp
  from 1 2 ms show ?thesis by blast
qed

section \<open>Stream output: the layout\<close>

lemma operator_shl_loop_j_result:
  assumes "i < length (m_matrix mat)"
  shows "operator_shl_loop_j put mat i j out =
    Inr (out @ concat (map (\<lambda>x. put x @ '' '') (drop j (m_matrix mat ! i))))"
proof (induction "length (m_matrix mat ! i) - j" arbitrary: j out)
  case 0
  then show ?case
    using assms by (subst operator_shl_loop_j.simps) (simp add: at_vec_def)
next
  case (Suc d)
  then have j: "j < length (m_matrix mat ! i)" by simp
  have rd: "at2 (m_matrix mat) i j = Inr (m_matrix mat ! i ! j)"
    using assms j by (simp add: at2_def at_vec_def)
  have step: "operator_shl_loop_j put mat i j out =
      operator_shl_loop_j put mat i (j + 1) (out @ put (m_matrix mat ! i ! j) @ '' '')"
    using assms j rd by (subst operator_shl_loop_j.simps) (simp add: at_vec_def)
  have "d = length (m_matrix mat ! i) - (j + 1)" using Suc.hyps(2) by simp
  then have "operator_shl_loop_j put mat i (j + 1) (out @ put (m_matrix mat ! i ! j) @ '' '') =
      Inr ((out @ put (m_matrix mat ! i ! j) @ '' '')
             @ concat (map (\<lambda>x. put x @ '' '') (drop (j + 1) (m_matrix mat ! i))))"
    by (rule Suc.hyps(1))
  moreover have "drop j (m_matrix mat ! i) = m_matrix mat ! i ! j # drop (j + 1) (m_matrix mat ! i)"
    using j by (simp add: Cons_nth_drop_Suc)
  ultimately show ?case using step by simp
qed

lemma operator_shl_loop_first_result:
  assumes "m_matrix mat \<noteq> []"
  shows "operator_shl_loop_first put mat i out =
    Inr (out @ concat (map (\<lambda>row. ''[ '' @ concat (map (\<lambda>x. put x @ '' '') row) @ '']''
                                        @ [CHR 0x0A, CHR '' ''])
                            (drop i (butlast (m_matrix mat)))))"
proof (induction "length (m_matrix mat) - 1 - i" arbitrary: i out)
  case 0
  then have "\<not> i < length (m_matrix mat) - 1" by simp
  then have stop: "\<not> i < size_minus_1 (length (m_matrix mat))"
    using assms by (simp add: size_minus_1_def)
  have "drop i (butlast (m_matrix mat)) = []" using 0 by simp
  with stop show ?case
    by (subst operator_shl_loop_first.simps) simp
next
  case (Suc d)
  then have i: "i < length (m_matrix mat) - 1" by simp
  then have i': "i < length (m_matrix mat)" by simp
  have inner: "operator_shl_loop_j put mat i 0 (out @ ''[ '') =
      Inr ((out @ ''[ '') @ concat (map (\<lambda>x. put x @ '' '') (drop 0 (m_matrix mat ! i))))"
    using i' by (rule operator_shl_loop_j_result)
  have step: "operator_shl_loop_first put mat i out =
      operator_shl_loop_first put mat (i + 1)
        (out @ ''[ '' @ concat (map (\<lambda>x. put x @ '' '') (m_matrix mat ! i)) @ '']''
           @ [CHR 0x0A, CHR '' ''])"
    using assms i inner by (subst operator_shl_loop_first.simps) (simp add: size_minus_1_def)
  have "d = length (m_matrix mat) - 1 - (i + 1)" using Suc.hyps(2) by simp
  then have "operator_shl_loop_first put mat (i + 1)
        (out @ ''[ '' @ concat (map (\<lambda>x. put x @ '' '') (m_matrix mat ! i)) @ '']''
           @ [CHR 0x0A, CHR '' '']) =
      Inr ((out @ ''[ '' @ concat (map (\<lambda>x. put x @ '' '') (m_matrix mat ! i)) @ '']''
           @ [CHR 0x0A, CHR '' ''])
           @ concat (map (\<lambda>row. ''[ '' @ concat (map (\<lambda>x. put x @ '' '') row) @ '']''
                                        @ [CHR 0x0A, CHR '' ''])
                            (drop (i + 1) (butlast (m_matrix mat)))))"
    by (rule Suc.hyps(1))
  moreover have "drop i (butlast (m_matrix mat)) = m_matrix mat ! i # drop (i + 1) (butlast (m_matrix mat))"
    using i by (simp add: Cons_nth_drop_Suc[symmetric] nth_butlast)
  ultimately show ?case using step by simp
qed

lemma operator_shl_loop_last_result:
  "operator_shl_loop_last put mat i out =
    Inr (out @ concat (map (\<lambda>row. ''[ '' @ concat (map (\<lambda>x. put x @ '' '') row) @ '']'')
                            (drop i (m_matrix mat))))"
proof (induction "length (m_matrix mat) - i" arbitrary: i out)
  case 0
  then show ?case
    by (subst operator_shl_loop_last.simps) simp
next
  case (Suc d)
  then have i: "i < length (m_matrix mat)" by simp
  have inner: "operator_shl_loop_j put mat i 0 (out @ ''[ '') =
      Inr ((out @ ''[ '') @ concat (map (\<lambda>x. put x @ '' '') (drop 0 (m_matrix mat ! i))))"
    using i by (rule operator_shl_loop_j_result)
  have step: "operator_shl_loop_last put mat i out =
      operator_shl_loop_last put mat (i + 1)
        (out @ ''[ '' @ concat (map (\<lambda>x. put x @ '' '') (m_matrix mat ! i)) @ '']'')"
    using i inner by (subst operator_shl_loop_last.simps) simp
  have "d = length (m_matrix mat) - (i + 1)" using Suc.hyps(2) by simp
  then have "operator_shl_loop_last put mat (i + 1)
        (out @ ''[ '' @ concat (map (\<lambda>x. put x @ '' '') (m_matrix mat ! i)) @ '']'') =
      Inr ((out @ ''[ '' @ concat (map (\<lambda>x. put x @ '' '') (m_matrix mat ! i)) @ '']'')
           @ concat (map (\<lambda>row. ''[ '' @ concat (map (\<lambda>x. put x @ '' '') row) @ '']'')
                            (drop (i + 1) (m_matrix mat))))"
    by (rule Suc.hyps(1))
  moreover have "drop i (m_matrix mat) = m_matrix mat ! i # drop (i + 1) (m_matrix mat)"
    using i by (simp add: Cons_nth_drop_Suc)
  ultimately show ?case using step by simp
qed

lemma drop_length_minus_1: "xs \<noteq> [] \<Longrightarrow> drop (length xs - Suc 0) xs = [last xs]"
proof -
  assume "xs \<noteq> []"
  then have "drop (length xs - Suc 0) xs = drop (length (butlast xs)) (butlast xs @ [last xs])"
    by simp
  then show ?thesis by simp
qed

lemma operator_shl_matrix_result:
  assumes "m_matrix mat \<noteq> []"
  shows "operator_shl_matrix put out mat =
     Inr (out @ ''[''
          @ concat (map (\<lambda>row. ''[ '' @ concat (map (\<lambda>x. put x @ '' '') row) @ '']''
                                  @ [CHR 0x0A, CHR '' ''])
                        (butlast (m_matrix mat)))
          @ ''[ '' @ concat (map (\<lambda>x. put x @ '' '') (last (m_matrix mat))) @ '']''
          @ '']'' @ [CHR 0x0A])"
  using assms
  by (simp add: operator_shl_matrix_def operator_shl_loop_first_result
        operator_shl_loop_last_result size_minus_1_def drop_length_minus_1)

lemma put_size_t_digit: "n < 10 \<Longrightarrow> put_size_t n = [digit_char n]"
  by (subst put_size_t.simps) simp

text \<open>
  Claim C9. For a matrix with at least one row, \<^verbatim>\<open>operator<<\<close> appends to the stream: an
  opening bracket; each row but the last as \<^verbatim>\<open>[ e0 e1 ... en ]\<close> followed by a newline and a
  space; the last row as \<^verbatim>\<open>[ e0 e1 ... en ]\<close>; the closing bracket and a newline. The overload
  for a size pair appends \<^verbatim>\<open>(rows, cols)\<close> and a newline, so \<open>(2, 3)\<close> is written \<^verbatim>\<open>(2, 3)\<close>. The
  \<open>1 \<times> 1\<close> matrix that holds \<open>5\<close> is written \<^verbatim>\<open>[[ 5 ]]\<close>: one row, in its brackets, inside the
  outer brackets.
\<close>

theorem operator_shl_layout:
  "(m_matrix mat \<noteq> [] \<longrightarrow>
      operator_shl_matrix put out mat =
        Inr (out @ ''[''
             @ concat (map (\<lambda>row. ''[ '' @ concat (map (\<lambda>x. put x @ '' '') row) @ '']''
                                     @ [CHR 0x0A, CHR '' ''])
                           (butlast (m_matrix mat)))
             @ ''[ '' @ concat (map (\<lambda>x. put x @ '' '') (last (m_matrix mat))) @ '']''
             @ '']'' @ [CHR 0x0A])) \<and>
   operator_shl_pair out (r, c) =
     out @ ''('' @ put_size_t r @ '', '' @ put_size_t c @ '')'' @ [CHR 0x0A] \<and>
   operator_shl_pair [] (2, 3) = ''(2, 3)'' @ [CHR 0x0A] \<and>
   operator_shl_matrix put_int [] (Matrix_of_scalar 5) = Inr (''[[ 5 ]]'' @ [CHR 0x0A])"
proof (intro conjI impI)
  assume "m_matrix mat \<noteq> []"
  then show "operator_shl_matrix put out mat =
        Inr (out @ ''[''
             @ concat (map (\<lambda>row. ''[ '' @ concat (map (\<lambda>x. put x @ '' '') row) @ '']''
                                     @ [CHR 0x0A, CHR '' ''])
                           (butlast (m_matrix mat)))
             @ ''[ '' @ concat (map (\<lambda>x. put x @ '' '') (last (m_matrix mat))) @ '']''
             @ '']'' @ [CHR 0x0A])"
    by (rule operator_shl_matrix_result)
next
  show "operator_shl_pair out (r, c) =
     out @ ''('' @ put_size_t r @ '', '' @ put_size_t c @ '')'' @ [CHR 0x0A]"
    by (simp add: operator_shl_pair_def)
next
  show "operator_shl_pair [] (2, 3) = ''(2, 3)'' @ [CHR 0x0A]"
    by (simp add: operator_shl_pair_def put_size_t_digit digit_char_def)
next
  have "m_matrix (Matrix_of_scalar (5 :: int)) \<noteq> []" by (simp add: Matrix_of_scalar_def)
  from operator_shl_matrix_result[OF this, of put_int "[]"]
  show "operator_shl_matrix put_int [] (Matrix_of_scalar 5) = Inr (''[[ 5 ]]'' @ [CHR 0x0A])"
    by (simp add: Matrix_of_scalar_def put_int_def put_size_t_digit digit_char_def)
qed

text \<open>The matrix of the example in the source's comment, \<^verbatim>\<open>{{1, 2, 3}, {4, 5, 6}}\<close>.\<close>

theorem operator_shl_layout_witness:
  "m_matrix \<lparr>m_matrix = [[1, 2, 3], [4, 5, 6 :: int]]\<rparr> \<noteq> [] \<and>
   operator_shl_matrix put_int [] \<lparr>m_matrix = [[1, 2, 3], [4, 5, 6 :: int]]\<rparr> =
     Inr (''[[ 1 2 3 ]'' @ [CHR 0x0A] @ '' [ 4 5 6 ]]'' @ [CHR 0x0A])"
  using operator_shl_layout[of "\<lparr>m_matrix = [[1, 2, 3], [4, 5, 6 :: int]]\<rparr>" put_int "[]", THEN conjunct1]
  by (simp add: put_int_def put_size_t_digit digit_char_def)

text \<open>
  On a matrix with no rows the bound \<^verbatim>\<open>size()-1\<close> of the first loop wraps, and its first
  iteration reads row \<open>0\<close>.
\<close>

lemma operator_shl_matrix_no_rows:
  "operator_shl_matrix put out \<lparr>m_matrix = []\<rparr> = Inl OutOfRange"
proof -
  have "operator_shl_loop_j put \<lparr>m_matrix = []\<rparr> 0 0 (out @ ''['' @ ''[ '') = Inl OutOfRange"
    by (subst operator_shl_loop_j.simps) (simp add: at_vec_def)
  then have "operator_shl_loop_first put \<lparr>m_matrix = []\<rparr> 0 (out @ ''['') = Inl OutOfRange"
    by (subst operator_shl_loop_first.simps) (simp add: size_minus_1_def)
  then show ?thesis by (simp add: operator_shl_matrix_def)
qed

end
